theory Spec2Isabelle
  imports
    Main
    "HOL-Library.AList"
    "HOL-Library.Sublist"
    "HOL-Library.Multiset"
    "HOL-Library.Char_ord"
    "HOL-Library.List_Lexorder"
begin

section \<open>The locator-yui plugin (lib/plugin.js)\<close>

text \<open>
  The plugin decides which files of a bundle have to be rebuilt after a change, keeps the
  metadata of the modules it has seen in \<open>this._bundles\<close>, compiles that metadata into
  loader data for the server and for the client, and runs the builder over the files chosen.

  JavaScript objects used as dictionaries are association lists: \<open>obj[k]\<close> is
  \<open>map_of obj k\<close>, \<open>obj[k] = v\<close> is \<open>AList.update k v obj\<close> (an existing key keeps its place,
  a new key goes to the end, as in a JavaScript object with string keys), and
  \<open>Object.keys(obj)\<close> is \<open>map fst obj\<close>. Strings are compared as lists of characters, which
  is the order of \<open>Array.prototype.sort\<close> on strings.
\<close>

type_synonym 'v dict = "(string \<times> 'v) list"

subsection \<open>Strings and paths\<close>

text \<open>
  \<open>s.indexOf(t)\<close>: the first position at which \<open>t\<close> occurs in \<open>s\<close>, or \<open>-1\<close>.
\<close>

fun indexOf :: "string \<Rightarrow> string \<Rightarrow> int" where
  "indexOf [] t = (if t = [] then 0 else - 1)"
| "indexOf (c # s) t =
     (if prefix t (c # s) then 0
      else (let i = indexOf s t in if i < 0 then - 1 else i + 1))"

text \<open>
  \<open>libpath\<close> is Node's \<open>path\<close> module, which is not part of the repository. The three
  functions the plugin calls are written out after its POSIX implementation: trailing
  separators are skipped, the base name is the last component, the extension starts at the
  last dot of the base name unless that dot is its first character or the base name is
  \<open>..\<close>, and the directory is what precedes the separator before the last component.
\<close>

definition basename :: "string \<Rightarrow> string" where
  "basename p =
     rev (takeWhile (\<lambda>c. c \<noteq> CHR ''/'') (dropWhile (\<lambda>c. c = CHR ''/'') (rev p)))"

definition extname :: "string \<Rightarrow> string" where
  "extname p =
     (let b = basename p;
          e = takeWhile (\<lambda>c. c \<noteq> CHR ''.'') (rev b)
      in if CHR ''.'' \<notin> set b then []
         else if Suc (length e) = length b then []
         else if b = ''..'' then []
         else CHR ''.'' # rev e)"

definition dirname :: "string \<Rightarrow> string" where
  "dirname p =
     (case p of
        [] \<Rightarrow> ''.''
      | c # cs \<Rightarrow>
          (let r = dropWhile (\<lambda>x. x \<noteq> CHR ''/'') (dropWhile (\<lambda>x. x = CHR ''/'') (rev cs))
           in if r = [] then (if c = CHR ''/'' then ''/'' else ''.'')
              else if c = CHR ''/'' \<and> length r = 1 then ''//''
              else c # rev (tl r)))"

subsection \<open>Data\<close>

text \<open>
  A module record as the shifter module produces it: \<open>name\<close>, \<open>buildfile\<close> and \<open>builds\<close>, each
  build with an optional \<open>config\<close> whose \<open>affinity\<close> may be unset.
\<close>

record config =
  affinity :: "string option"

record build =
  config :: "config option"

record ymodule =
  name :: string
  buildfile :: string
  builds :: "build dict"

text \<open>\<open>this._bundles\<close>: bundle name, then cache key (a file path), then the module record.\<close>

type_synonym registry = "ymodule dict dict"

text \<open>
  An expression such as \<open>a && b\<close> or a bare \<open>return;\<close> yields a falsy value where the plugin's
  callers expect an object: \<open>undefined\<close>, or the number \<open>0\<close> of
  \<open>Object.keys(...).length\<close>. Anything else is the object itself.
\<close>

datatype 'a js_value = Undefined | Zero | Truthy 'a

text \<open>
  An entry of the \<open>json\<close> part of loader data is either what the builder compiled (of a type
  the plugin never inspects) or the synthetic \<open>{group: ..., affinity: ...}\<close> object the
  client view adds for the meta module.
\<close>

datatype 'j entry = Built 'j | MetaModule string string

record 'j loaderData =
  json :: "'j entry dict"
  js :: string

record 'j yui_data =
  server :: "'j entry dict option"
  client :: "'j entry dict option"
  metaModuleFullpath :: "string option"
  metaModuleName :: "string option"

record 'j "bundle" =
  bundleName :: string
  buildDirectory :: string
  yui :: "'j yui_data option"

datatype error = WriteFailed string | ShiftFailed string | TypeError

text \<open>What \<open>bundleUpdated\<close> reads of \<open>this.describe\<close>, and the event it is given.\<close>

record describe =
  describe_args :: "string list"
  options_cache :: bool
  options_cssproc :: "string option"

record 'j event =
  evt_bundle :: "'j bundle"
  evt_files :: "string list option"

text \<open>
  The collaborators of the plugin that are not in lib/plugin.js: the two checks of the
  shifter module (a module record or a negative result); \<open>compile\<close>, which stands for
  \<open>new BuilderClass({name: ..., group: ...})\<close>, \<open>obj.compile(buildMeta)\<close> and the
  \<open>obj.data\<close> read afterwards (it may be missing); \<open>utils.filterFilesInBundle\<close> with the
  configured filter; of the \<open>api\<close> object \<open>getBundleFiles\<close> and \<open>writeFileInBundle\<close> (the
  promise it returns resolves to the new path, to nothing, or is rejected); and
  \<open>shifter.shiftFiles\<close>, whose callback receives an error or nothing.
\<close>

record shift_options =
  buildDir :: string
  args :: "string list"
  cache :: bool

record 'j env =
  checkYUIModule :: "string \<Rightarrow> ymodule option"
  checkBuildFile :: "string \<Rightarrow> ymodule option"
  compile :: "string \<Rightarrow> string \<Rightarrow> ymodule dict \<Rightarrow> 'j loaderData option"
  filterFilesInBundle :: "'j bundle \<Rightarrow> string list option \<Rightarrow> string list option"
  getBundleFiles :: "string \<Rightarrow> string list option"
  writeFileInBundle :: "string \<Rightarrow> string \<Rightarrow> string \<Rightarrow> error + string option"
  shiftFiles :: "string list \<Rightarrow> shift_options \<Rightarrow> error option"

subsection \<open>The registry\<close>

definition register :: "registry \<Rightarrow> string \<Rightarrow> string \<Rightarrow> ymodule \<Rightarrow> registry" where
  "register bundles bname cacheKey ymod =
     (let inner = (case map_of bundles bname of Some m \<Rightarrow> m | None \<Rightarrow> [])
      in AList.update bname (AList.update cacheKey ymod inner) bundles)"

text \<open>\<open>this._bundles[bundleName][cacheKey]\<close>, where the bundle is known.\<close>

definition lookup :: "registry \<Rightarrow> string \<Rightarrow> string \<Rightarrow> ymodule option" where
  "lookup bundles bname cacheKey =
     (case map_of bundles bname of None \<Rightarrow> None | Some m \<Rightarrow> map_of m cacheKey)"

text \<open>Every record held under a bundle name and cache key, in the order of storage.\<close>

definition records_under :: "registry \<Rightarrow> string \<Rightarrow> string \<Rightarrow> ymodule list" where
  "records_under bundles bname cacheKey =
     concat (map (\<lambda>(b, m). if b = bname
                             then map snd (filter (\<lambda>(k, r). k = cacheKey) m) else []) bundles)"

text \<open>A JavaScript object holds each key once.\<close>

definition wf_registry :: "registry \<Rightarrow> bool" where
  "wf_registry bundles =
     (distinct (map fst bundles) \<and> (\<forall>(b, m) \<in> set bundles. distinct (map fst m)))"

subsection \<open>Choosing the files to shift\<close>

text \<open>\<open>(files && files.sort()) || []\<close>\<close>

definition sorted_or_empty :: "string list option \<Rightarrow> string list" where
  "sorted_or_empty files = (case files of None \<Rightarrow> [] | Some fs \<Rightarrow> sort fs)"

text \<open>
  The first loop of \<open>_buildsInBundle\<close>, over the modified files: a \<open>.js\<close> file other than the
  bundle's loader meta module that the shifter accepts is registered and marked. The state
  is the registry and the local object \<open>builds\<close>.
\<close>

primrec modifiedModules ::
  "'j env \<Rightarrow> string \<Rightarrow> string list \<Rightarrow> registry \<times> bool dict \<Rightarrow> registry \<times> bool dict" where
  "modifiedModules E bn [] st = st"
| "modifiedModules E bn (file # rest) st =
     (if extname file = ''.js'' \<and> basename file \<noteq> ''loader-'' @ bn @ ''.js''
      then (case checkYUIModule E file of
              Some ymod \<Rightarrow>
                modifiedModules E bn rest
                  (register (fst st) bn file ymod, AList.update file True (snd st))
            | None \<Rightarrow> modifiedModules E bn rest st)
      else modifiedModules E bn rest st)"

text \<open>
  The inner loop of the second part, for one valid build.json and its directory: the
  build.json is marked when it was modified itself, and when a modified \<open>.js\<close> file starts
  with the directory and does not contain the build directory.
\<close>

primrec markBuildFile ::
  "string \<Rightarrow> string \<Rightarrow> string \<Rightarrow> string list \<Rightarrow> bool dict \<Rightarrow> bool dict" where
  "markBuildFile bd jsonFile dir [] marked = marked"
| "markBuildFile bd jsonFile dir (file # rest) marked =
     (let marked1 = (if file = jsonFile then AList.update jsonFile True marked else marked);
          marked2 = (if extname file = ''.js'' \<and> indexOf file dir = 0 \<and> indexOf file bd = - 1
                     then AList.update jsonFile True marked1 else marked1)
      in markBuildFile bd jsonFile dir rest marked2)"

text \<open>The second loop, over the json files; a valid build.json is registered in any case.\<close>

primrec buildFiles ::
  "'j env \<Rightarrow> string \<Rightarrow> string \<Rightarrow> string list \<Rightarrow> string list \<Rightarrow>
   registry \<times> bool dict \<Rightarrow> registry \<times> bool dict" where
  "buildFiles E bn bd modifiedFiles [] st = st"
| "buildFiles E bn bd modifiedFiles (jsonFile # rest) st =
     (if basename jsonFile = ''build.json''
      then (case checkBuildFile E jsonFile of
              Some ymod \<Rightarrow>
                buildFiles E bn bd modifiedFiles rest
                  (register (fst st) bn jsonFile ymod,
                   markBuildFile bd jsonFile (dirname jsonFile) modifiedFiles (snd st))
            | None \<Rightarrow> buildFiles E bn bd modifiedFiles rest st)
      else buildFiles E bn bd modifiedFiles rest st)"

text \<open>
  \<open>_buildsInBundle\<close>: the registry after the call, and \<open>Object.keys(builds).sort()\<close>.
\<close>

definition buildsInBundle ::
  "'j env \<Rightarrow> registry \<Rightarrow> 'j bundle \<Rightarrow> string list option \<Rightarrow> string list option \<Rightarrow>
   registry \<times> string list" where
  "buildsInBundle E bundles bundle modifiedFiles jsonFiles =
     (let ms = sorted_or_empty modifiedFiles;
          jfs = sorted_or_empty jsonFiles;
          st1 = modifiedModules E (bundleName bundle) ms (bundles, []);
          st2 = buildFiles E (bundleName bundle) (buildDirectory bundle) ms jfs st1
      in (fst st2, sort (map fst (snd st2))))"

subsection \<open>Loader data\<close>

text \<open>
  \<open>!filter || filter(meta[mod].name, meta[mod].builds[build].config || {})\<close>
\<close>

definition passes :: "(string \<Rightarrow> config \<Rightarrow> bool) option \<Rightarrow> ymodule \<Rightarrow> build \<Rightarrow> bool" where
  "passes fltr m b =
     (case fltr of
        None \<Rightarrow> True
      | Some f \<Rightarrow> f (name m) (case config b of Some c \<Rightarrow> c | None \<Rightarrow> \<lparr>affinity = None\<rparr>))"

text \<open>
  \<open>obj.hasOwnProperty(key)\<close>, as the loops of \<open>_getLoaderData\<close> call it: the method is
  looked up on the object itself. When the object has a key named \<open>hasOwnProperty\<close> the
  lookup finds the value stored under it, which is a record and no function, and the call
  throws a \<open>TypeError\<close>.
\<close>

definition hasOwnProperty :: "'v dict \<Rightarrow> string \<Rightarrow> error + bool" where
  "hasOwnProperty obj key =
     (if map_of obj ''hasOwnProperty'' \<noteq> None then Inl TypeError
      else Inr (key \<in> set (map fst obj)))"

text \<open>
  The inner loop of \<open>_getLoaderData\<close>, over the builds of the module stored under \<open>k\<close>: a
  build that passes is copied into \<open>buildMeta[k]\<close>, which is created on first use.
\<close>

primrec keepBuilds ::
  "(string \<Rightarrow> config \<Rightarrow> bool) option \<Rightarrow> string \<Rightarrow> ymodule \<Rightarrow> string list \<Rightarrow>
   ymodule dict \<Rightarrow> error + ymodule dict" where
  "keepBuilds fltr k m [] buildMeta = Inr buildMeta"
| "keepBuilds fltr k m (bk # rest) buildMeta =
     (case hasOwnProperty (builds m) bk of
        Inl e \<Rightarrow> Inl e
      | Inr own \<Rightarrow>
          (case (if own then map_of (builds m) bk else None) of
             None \<Rightarrow> keepBuilds fltr k m rest buildMeta
           | Some b \<Rightarrow>
               if passes fltr m b
               then (let e = (case map_of buildMeta k of
                                Some e \<Rightarrow> e
                              | None \<Rightarrow> \<lparr>name = name m, buildfile = buildfile m, builds = []\<rparr>)
                     in keepBuilds fltr k m rest
                          (AList.update k (e\<lparr>builds := AList.update bk b (builds e)\<rparr>) buildMeta))
               else keepBuilds fltr k m rest buildMeta))"

text \<open>The outer loop, over the cache keys of the bundle.\<close>

primrec filterMeta ::
  "(string \<Rightarrow> config \<Rightarrow> bool) option \<Rightarrow> ymodule dict \<Rightarrow> string list \<Rightarrow>
   ymodule dict \<Rightarrow> error + ymodule dict" where
  "filterMeta fltr meta [] buildMeta = Inr buildMeta"
| "filterMeta fltr meta (k # rest) buildMeta =
     (case hasOwnProperty meta k of
        Inl e \<Rightarrow> Inl e
      | Inr own \<Rightarrow>
          (case (if own then map_of meta k else None) of
             None \<Rightarrow> filterMeta fltr meta rest buildMeta
           | Some m \<Rightarrow>
               (case keepBuilds fltr k m (map fst (builds m)) buildMeta of
                  Inl e \<Rightarrow> Inl e
                | Inr buildMeta' \<Rightarrow> filterMeta fltr meta rest buildMeta')))"

text \<open>
  \<open>_getLoaderData\<close>: a \<open>TypeError\<close> thrown in the loops, or the value returned.
\<close>

definition getLoaderData ::
  "'j env \<Rightarrow> registry \<Rightarrow> string \<Rightarrow> (string \<Rightarrow> config \<Rightarrow> bool) option \<Rightarrow>
   error + 'j loaderData js_value" where
  "getLoaderData E bundles bname fltr =
     (let meta = (case map_of bundles bname of Some m \<Rightarrow> m | None \<Rightarrow> [])
      in case filterMeta fltr meta (map fst meta) [] of
           Inl e \<Rightarrow> Inl e
         | Inr buildMeta \<Rightarrow>
             Inr (if length (map fst buildMeta) = 0 then Undefined
                  else (case compile E (''loader-'' @ bname) bname buildMeta of
                          None \<Rightarrow> Undefined
                        | Some d \<Rightarrow> if length (map fst (json d)) = 0 then Zero else Truthy d)))"

definition createServerLoaderData ::
  "'j env \<Rightarrow> registry \<Rightarrow> 'j bundle \<Rightarrow> error + 'j loaderData js_value" where
  "createServerLoaderData E bundles b =
     getLoaderData E bundles (bundleName b) (Some (\<lambda>n c. affinity c \<noteq> Some ''client''))"

definition createClientLoaderData ::
  "'j env \<Rightarrow> registry \<Rightarrow> 'j bundle \<Rightarrow> string \<Rightarrow> error + 'j loaderData js_value" where
  "createClientLoaderData E bundles b moduleName =
     (case getLoaderData E bundles (bundleName b) (Some (\<lambda>n c. affinity c \<noteq> Some ''server'')) of
        Inl e \<Rightarrow> Inl e
      | Inr (Truthy d) \<Rightarrow>
          Inr (Truthy (d\<lparr>json := AList.update moduleName (MetaModule (bundleName b) ''client'')
                                     (json d)\<rparr>))
      | Inr Undefined \<Rightarrow> Inr Undefined
      | Inr Zero \<Rightarrow> Inr Zero)"

text \<open>\<open>bundle.yui || {}\<close>\<close>

definition yui_or_empty :: "'j bundle \<Rightarrow> 'j yui_data" where
  "yui_or_empty b =
     (case yui b of
        Some y \<Rightarrow> y
      | None \<Rightarrow> \<lparr>server = None, client = None, metaModuleFullpath = None, metaModuleName = None\<rparr>)"

definition attachServerLoaderData :: "'j bundle \<Rightarrow> 'j loaderData js_value \<Rightarrow> 'j bundle" where
  "attachServerLoaderData b loaderData =
     (case loaderData of
        Truthy d \<Rightarrow> b\<lparr>yui := Some ((yui_or_empty b)\<lparr>server := Some (json d)\<rparr>)\<rparr>
      | Undefined \<Rightarrow> b
      | Zero \<Rightarrow> b)"

text \<open>
  \<open>_attachClientLoaderData\<close> returns the bundle as it leaves it, the calls of
  \<open>api.writeFileInBundle\<close> it made (bundle name, path, content), and its return value:
  the falsy loader data itself, or what the promise of the write comes to.
\<close>

definition attachClientLoaderData ::
  "'j env \<Rightarrow> 'j bundle \<Rightarrow> string \<Rightarrow> 'j loaderData js_value \<Rightarrow>
   'j bundle \<times> (string \<times> string \<times> string) list \<times> (error + string js_value)" where
  "attachClientLoaderData E b destPath loaderData =
     (case loaderData of
        Truthy d \<Rightarrow>
          (b\<lparr>yui := Some ((yui_or_empty b)\<lparr>client := Some (json d)\<rparr>)\<rparr>,
           [(bundleName b, destPath, js d)],
           (case writeFileInBundle E (bundleName b) destPath (js d) of
              Inl e \<Rightarrow> Inl e
            | Inr None \<Rightarrow> Inr Undefined
            | Inr (Some newfile) \<Rightarrow> Inr (Truthy newfile)))
      | Undefined \<Rightarrow> (b, [], Inr Undefined)
      | Zero \<Rightarrow> (b, [], Inr Zero))"

text \<open>
  \<open>_attachClientMetaData\<close>: the empty string is falsy too; writing a field of a missing
  \<open>bundle.yui\<close> throws.
\<close>

definition attachClientMetaData ::
  "'j bundle \<Rightarrow> string list \<Rightarrow> string \<Rightarrow> string js_value \<Rightarrow>
   error + 'j bundle \<times> string list" where
  "attachClientMetaData b blds moduleName newfile =
     (case newfile of
        Truthy p \<Rightarrow>
          if p = [] then Inr (b, blds)
          else (case yui b of
                  None \<Rightarrow> Inl TypeError
                | Some y \<Rightarrow>
                    Inr (b\<lparr>yui := Some (y\<lparr>metaModuleFullpath := Some p,
                                            metaModuleName := Some moduleName\<rparr>)\<rparr>,
                         blds @ [p]))
      | Undefined \<Rightarrow> Inr (b, blds)
      | Zero \<Rightarrow> Inr (b, blds))"

text \<open>\<open>_shiftEverything\<close>: the call of \<open>shifter.shiftFiles\<close> and the error its callback gets.\<close>

definition shiftEverything ::
  "describe \<Rightarrow> 'j env \<Rightarrow> 'j bundle \<Rightarrow> string list \<Rightarrow>
   (string list \<times> shift_options) \<times> error option" where
  "shiftEverything D E b blds =
     (let a = (case options_cssproc D of
                 None \<Rightarrow> describe_args D
               | Some c \<Rightarrow>
                   if c = [] then describe_args D
                   else describe_args D @
                        [''--cssproc'',
                         (if last c = CHR ''/'' then c else c @ ''/'') @ basename (buildDirectory b)]);
          opts = \<lparr>buildDir = buildDirectory b, args = a, cache = options_cache D\<rparr>
      in ((blds, opts), shiftFiles E blds opts))"

subsection \<open>The change event\<close>

text \<open>
  \<open>bundleUpdated\<close> returns nothing when there is nothing to shift, and a promise otherwise.
  The steps of the promise chain run one after the other; a rejection, and an exception
  thrown in a step, skips the rest, so the chain is a sequence of results. Beside the
  outcome the model keeps what the call has changed: the registry, the bundle, and the calls
  made to \<open>api.writeFileInBundle\<close> and to \<open>shifter.shiftFiles\<close>.
\<close>

datatype outcome = NoPromise | Fulfilled | Rejected error

record 'j updated =
  bundles_after :: registry
  bundle_after :: "'j bundle"
  targets :: "string list"
  written :: "(string \<times> string \<times> string) list"
  shifted :: "(string list \<times> shift_options) list"
  outcome :: outcome

definition bundleUpdated :: "describe \<Rightarrow> 'j env \<Rightarrow> registry \<Rightarrow> 'j event \<Rightarrow> 'j updated" where
  "bundleUpdated D E bundles evt =
     (let b = evt_bundle evt;
          moduleName = ''loader-'' @ bundleName b;
          destination_path = moduleName @ ''.js'';
          files = filterFilesInBundle E b (evt_files evt);
          r = buildsInBundle E bundles b files (getBundleFiles E (bundleName b));
          bundles1 = fst r;
          blds = snd r
      in if map_of bundles1 (bundleName b) = None \<or> length blds = 0
         then \<lparr>bundles_after = bundles1, bundle_after = b, targets = blds,
               written = [], shifted = [], outcome = NoPromise\<rparr>
         else
           (case createServerLoaderData E bundles1 b of
              Inl e \<Rightarrow>
                \<lparr>bundles_after = bundles1, bundle_after = b, targets = blds,
                 written = [], shifted = [], outcome = Rejected e\<rparr>
            | Inr serverData \<Rightarrow>
                (let b1 = attachServerLoaderData b serverData
                 in case createClientLoaderData E bundles1 b1 moduleName of
                      Inl e \<Rightarrow>
                        \<lparr>bundles_after = bundles1, bundle_after = b1, targets = blds,
                         written = [], shifted = [], outcome = Rejected e\<rparr>
                    | Inr clientData \<Rightarrow>
                        (let a = attachClientLoaderData E b1 destination_path clientData;
                             b2 = fst a;
                             w = fst (snd a)
                         in case snd (snd a) of
                              Inl e \<Rightarrow>
                                \<lparr>bundles_after = bundles1, bundle_after = b2, targets = blds,
                                 written = w, shifted = [], outcome = Rejected e\<rparr>
                            | Inr newfile \<Rightarrow>
                                (case attachClientMetaData b2 blds moduleName newfile of
                                   Inl e \<Rightarrow>
                                     \<lparr>bundles_after = bundles1, bundle_after = b2,
                                      targets = blds, written = w, shifted = [],
                                      outcome = Rejected e\<rparr>
                                 | Inr (b3, blds') \<Rightarrow>
                                     (let s = shiftEverything D E b3 blds'
                                      in \<lparr>bundles_after = bundles1, bundle_after = b3,
                                          targets = blds', written = w, shifted = [fst s],
                                          outcome = (case snd s of None \<Rightarrow> Fulfilled
                                                     | Some e \<Rightarrow> Rejected e)\<rparr>))))))"

section \<open>Vocabulary of the properties\<close>

text \<open>The files a list argument holds; a missing list holds none.\<close>

definition listed :: "string list option \<Rightarrow> string set" where
  "listed files = (case files of None \<Rightarrow> {} | Some fs \<Rightarrow> set fs)"

text \<open>The condition of the first loop, and the two conditions of the second.\<close>

definition accepted_module :: "'j env \<Rightarrow> string \<Rightarrow> string \<Rightarrow> bool" where
  "accepted_module E bn file \<longleftrightarrow>
     extname file = ''.js'' \<and> basename file \<noteq> ''loader-'' @ bn @ ''.js'' \<and>
     checkYUIModule E file \<noteq> None"

definition valid_descriptor :: "'j env \<Rightarrow> string \<Rightarrow> bool" where
  "valid_descriptor E jsonFile \<longleftrightarrow>
     basename jsonFile = ''build.json'' \<and> checkBuildFile E jsonFile \<noteq> None"

definition triggers :: "string \<Rightarrow> string \<Rightarrow> string \<Rightarrow> bool" where
  "triggers bd jsonFile file \<longleftrightarrow>
     file = jsonFile \<or>
     (extname file = ''.js'' \<and> prefix (dirname jsonFile) file \<and> \<not> sublist bd file)"

text \<open>
  The words of the specification, "lies under a directory": the path continues the
  directory's path after a separator. "Outside" a directory is its negation.
\<close>

definition lies_under :: "string \<Rightarrow> string \<Rightarrow> bool" where
  "lies_under dir file \<longleftrightarrow> prefix (dir @ ''/'') file"

text \<open>\<open>this._bundles[bundleName] || {}\<close>\<close>

definition registered :: "registry \<Rightarrow> string \<Rightarrow> ymodule dict" where
  "registered bundles bname = (case map_of bundles bname of Some m \<Rightarrow> m | None \<Rightarrow> [])"

text \<open>
  A build of a module passes the filter: the filter, when there is one, holds of the
  module's name and the build's config, an empty config standing for a missing one. A module
  survives when one of its builds passes; \<open>kept fltr m e\<close>: \<open>e\<close> is \<open>m\<close> with its name and
  buildfile and exactly the builds that pass. \<open>merged\<close> describes the entry of \<open>buildMeta\<close>
  while the loops run: \<open>old\<close> is the entry before, \<open>S\<close> the builds visited since.
\<close>

definition passing :: "(string \<Rightarrow> config \<Rightarrow> bool) option \<Rightarrow> ymodule \<Rightarrow> string \<Rightarrow> bool" where
  "passing fltr m bk \<longleftrightarrow>
     (case map_of (builds m) bk of
        None \<Rightarrow> False
      | Some b \<Rightarrow>
          (case fltr of
             None \<Rightarrow> True
           | Some f \<Rightarrow>
               (case config b of
                  None \<Rightarrow> f (name m) \<lparr>affinity = None\<rparr>
                | Some c \<Rightarrow> f (name m) c)))"

definition survives :: "(string \<Rightarrow> config \<Rightarrow> bool) option \<Rightarrow> ymodule \<Rightarrow> bool" where
  "survives fltr m \<longleftrightarrow> (\<exists>bk \<in> set (map fst (builds m)). passing fltr m bk)"

definition kept :: "(string \<Rightarrow> config \<Rightarrow> bool) option \<Rightarrow> ymodule \<Rightarrow> ymodule \<Rightarrow> bool" where
  "kept fltr m e \<longleftrightarrow>
     name e = name m \<and> buildfile e = buildfile m \<and>
     (\<forall>bk. map_of (builds e) bk = (if passing fltr m bk then map_of (builds m) bk else None))"

definition merged ::
  "(string \<Rightarrow> config \<Rightarrow> bool) option \<Rightarrow> ymodule \<Rightarrow> string set \<Rightarrow> ymodule option \<Rightarrow>
   ymodule \<Rightarrow> bool" where
  "merged fltr m S old e \<longleftrightarrow>
     name e = (case old of Some e0 \<Rightarrow> name e0 | None \<Rightarrow> name m) \<and>
     buildfile e = (case old of Some e0 \<Rightarrow> buildfile e0 | None \<Rightarrow> buildfile m) \<and>
     (\<forall>bk. map_of (builds e) bk =
        (if bk \<in> S \<and> passing fltr m bk then map_of (builds m) bk
         else (case old of Some e0 \<Rightarrow> map_of (builds e0) bk | None \<Rightarrow> None)))"

text \<open>
  An object whose own key \<open>hasOwnProperty\<close> hides the method of that name, and the two
  loops of \<open>_getLoaderData\<close> as they run on objects that are not shadowed, where no call
  of the method throws.
\<close>

definition shadowed :: "'v dict \<Rightarrow> bool" where
  "shadowed obj \<longleftrightarrow> map_of obj ''hasOwnProperty'' \<noteq> None"

primrec keptBuilds ::
  "(string \<Rightarrow> config \<Rightarrow> bool) option \<Rightarrow> string \<Rightarrow> ymodule \<Rightarrow> string list \<Rightarrow>
   ymodule dict \<Rightarrow> ymodule dict" where
  "keptBuilds fltr k m [] buildMeta = buildMeta"
| "keptBuilds fltr k m (bk # rest) buildMeta =
     (case map_of (builds m) bk of
        None \<Rightarrow> keptBuilds fltr k m rest buildMeta
      | Some b \<Rightarrow>
          if passes fltr m b
          then (let e = (case map_of buildMeta k of
                           Some e \<Rightarrow> e
                         | None \<Rightarrow> \<lparr>name = name m, buildfile = buildfile m, builds = []\<rparr>)
                in keptBuilds fltr k m rest
                     (AList.update k (e\<lparr>builds := AList.update bk b (builds e)\<rparr>) buildMeta))
          else keptBuilds fltr k m rest buildMeta)"

primrec filteredMeta ::
  "(string \<Rightarrow> config \<Rightarrow> bool) option \<Rightarrow> ymodule dict \<Rightarrow> string list \<Rightarrow>
   ymodule dict \<Rightarrow> ymodule dict" where
  "filteredMeta fltr meta [] buildMeta = buildMeta"
| "filteredMeta fltr meta (k # rest) buildMeta =
     (case map_of meta k of
        None \<Rightarrow> filteredMeta fltr meta rest buildMeta
      | Some m \<Rightarrow>
          filteredMeta fltr meta rest (keptBuilds fltr k m (map fst (builds m)) buildMeta))"

text \<open>
  Modelled from the spec: \<open>BuilderClass\<close> (lib/builder.js) is not under src/. Sections 3
  and 4.3 of the specification say that the filtered structure is fed to the meta-module
  builder, which produces a structured mapping "from module name to its filtered build
  manifest" and a textual artifact "embedding that mapping". So each record of the filtered
  structure is stored under the name of its module, in the order of the structure, a later
  record of the same name taking the place of an earlier one; the text is computed from the
  meta module's name, its group and the mapping by \<open>render\<close>, about which nothing is
  assumed.
\<close>

definition BuilderClass_compile ::
  "(string \<Rightarrow> string \<Rightarrow> ymodule entry dict \<Rightarrow> string) \<Rightarrow> string \<Rightarrow> string \<Rightarrow> ymodule dict \<Rightarrow>
   ymodule loaderData option" where
  "BuilderClass_compile render nm grp buildMeta =
     (let j = foldl (\<lambda>j (k, m). AList.update (name m) (Built m) j) [] buildMeta
      in Some \<lparr>json = j, js = render nm grp j\<rparr>)"

subsection \<open>A small bundle to run the plugin on\<close>

text \<open>
  A shifter that accepts the files of a list, a builder that files each module it is given
  under its name, a host that writes below the build directory, and a registry with a module
  built for the server only and a build.json with one shared and one server build.
\<close>

definition accept :: "string list \<Rightarrow> string \<Rightarrow> ymodule option" where
  "accept fs f =
     (if f \<in> set fs
      then Some \<lparr>name = basename f, buildfile = f,
                 builds = [(basename f, \<lparr>config = None\<rparr>)]\<rparr>
      else None)"

definition demo_env :: "string list \<Rightarrow> string list \<Rightarrow> string list \<Rightarrow> ymodule env" where
  "demo_env modules descriptors jsonFiles =
     \<lparr>checkYUIModule = accept modules,
      checkBuildFile = accept descriptors,
      compile = (\<lambda>nm grp buildMeta.
                   Some \<lparr>json = map (\<lambda>(k, m). (name m, Built m)) buildMeta, js = nm\<rparr>),
      filterFilesInBundle = (\<lambda>b fs. fs),
      getBundleFiles = (\<lambda>bn. Some jsonFiles),
      writeFileInBundle = (\<lambda>bn p c. Inr (Some (''/app/build/'' @ p))),
      shiftFiles = (\<lambda>fs opts. None)\<rparr>"

definition demo_bundle :: "ymodule bundle" where
  "demo_bundle = \<lparr>bundleName = ''app'', buildDirectory = ''/app/build'', yui = None\<rparr>"

definition demo_describe :: describe where
  "demo_describe =
     \<lparr>describe_args = [''--no-global-config'', ''--no-coverage'', ''--no-lint''],
      options_cache = True, options_cssproc = Some ''/static''\<rparr>"

definition demo_registry :: registry where
  "demo_registry =
     [(''app'',
       [(''/app/a.js'',
         \<lparr>name = ''a'', buildfile = ''/app/a.js'',
          builds = [(''a'', \<lparr>config = Some \<lparr>affinity = Some ''server''\<rparr>\<rparr>)]\<rparr>),
        (''/app/widget/build.json'',
         \<lparr>name = ''widget'', buildfile = ''/app/widget/build.json'',
          builds = [(''widget'', \<lparr>config = None\<rparr>),
                    (''widget-server'', \<lparr>config = Some \<lparr>affinity = Some ''server''\<rparr>\<rparr>)]\<rparr>)])]"

definition client_view :: "(string \<Rightarrow> config \<Rightarrow> bool) option" where
  "client_view = Some (\<lambda>n c. affinity c \<noteq> Some ''server'')"

text \<open>
  Two more registries: one whose build.json has a build named \<open>hasOwnProperty\<close>, for the
  server only, and one whose build.json defines a module with the name of the bundle's meta
  module.
\<close>

definition shadow_registry :: registry where
  "shadow_registry =
     [(''app'',
       [(''/app/widget/build.json'',
         \<lparr>name = ''widget'', buildfile = ''/app/widget/build.json'',
          builds = [(''hasOwnProperty'', \<lparr>config = Some \<lparr>affinity = Some ''server''\<rparr>\<rparr>)]\<rparr>)])]"


section \<open>Properties\<close>

subsection \<open>The registry\<close>

lemma lookup_register:
  "lookup (register bundles b k r) b' k' = (if b' = b \<and> k' = k then Some r else lookup bundles b' k')"
  by (auto simp: lookup_def register_def update_conv' split: option.splits)

lemma register_overwrites:
  "register (register bundles b k r1) b k r2 = register bundles b k r2"
  by (simp add: register_def update_conv')

lemma set_update_subset: "set (AList.update k v al) \<subseteq> insert (k, v) (set al)"
  by (induction al) auto

lemma wf_registry_register:
  assumes "wf_registry bundles"
  shows "wf_registry (register bundles b k r)"
proof -
  let ?inner = "case map_of bundles b of Some m \<Rightarrow> m | None \<Rightarrow> []"
  have d: "distinct (map fst ?inner)"
    using assms by (auto simp: wf_registry_def split: option.splits dest!: map_of_SomeD)
  have "\<forall>(b', m) \<in> set (AList.update b (AList.update k r ?inner) bundles). distinct (map fst m)"
    using assms d set_update_subset [of b "AList.update k r ?inner" bundles]
    by (auto simp: wf_registry_def distinct_update)
  then show ?thesis
    using assms by (simp add: wf_registry_def register_def distinct_update)
qed

lemma filter_key_distinct:
  "distinct (map fst m) \<Longrightarrow>
   map snd (filter (\<lambda>(k', r). k' = k) m) = (case map_of m k of None \<Rightarrow> [] | Some r \<Rightarrow> [r])"
proof (induction m)
  case Nil
  then show ?case by simp
next
  case (Cons p m)
  obtain k' r where p: "p = (k', r)" by (cases p)
  show ?case
  proof (cases "k' = k")
    case True
    with Cons.prems p have "k \<notin> fst ` set m" by auto
    then have "filter (\<lambda>(k', r). k' = k) m = []"
      by (force simp: filter_empty_conv)
    with True p show ?thesis by simp
  next
    case False
    with Cons p show ?thesis by simp
  qed
qed

lemma records_under_wf:
  assumes "wf_registry bundles"
  shows "records_under bundles b k = (case lookup bundles b k of None \<Rightarrow> [] | Some r \<Rightarrow> [r])"
proof -
  have h: "distinct (map fst bs) \<Longrightarrow> (\<forall>(b', m) \<in> set bs. distinct (map fst m)) \<Longrightarrow>
        concat (map (\<lambda>(b', m). if b' = b then map snd (filter (\<lambda>(k', r). k' = k) m) else []) bs)
        = (case map_of bs b of None \<Rightarrow> [] | Some m \<Rightarrow> (case map_of m k of None \<Rightarrow> [] | Some r \<Rightarrow> [r]))" for bs
  proof (induction bs)
    case Nil
    then show ?case by simp
  next
    case (Cons p bs)
    obtain b' m where p: "p = (b', m)" by (cases p)
    show ?case
    proof (cases "b' = b")
      case True
      with Cons.prems p have "b \<notin> fst ` set bs" by auto
      then have "concat (map (\<lambda>(b', m). if b' = b then map snd (filter (\<lambda>(k', r). k' = k) m) else []) bs) = []"
        by (induction bs) auto
      with True p Cons.prems show ?thesis by (simp add: filter_key_distinct)
    next
      case False
      with Cons p show ?thesis by simp
    qed
  qed
  have "concat (map (\<lambda>(b', m). if b' = b then map snd (filter (\<lambda>(k', r). k' = k) m) else []) bundles)
        = (case map_of bundles b of None \<Rightarrow> [] | Some m \<Rightarrow> (case map_of m k of None \<Rightarrow> [] | Some r \<Rightarrow> [r]))"
    using assms by (intro h) (simp_all add: wf_registry_def)
  then show ?thesis
    by (simp add: records_under_def lookup_def split: option.splits)
qed

text \<open>
  C8. Registering twice under the same bundle name and cache key gives the registry that
  the later call alone would have given: the pair holds the later record. The registry is
  a JavaScript object, so each of its keys occurs once (\<open>wf_registry\<close>); then this still
  holds after the calls and the records under the pair are exactly the later one.
  \<open>register\<close> has no failing branch: it returns a registry for every argument.
\<close>

theorem register_twice_latest:
  "register (register bundles b k r1) b k r2 = register bundles b k r2
   \<and> lookup (register (register bundles b k r1) b k r2) b k = Some r2
   \<and> (wf_registry bundles \<longrightarrow>
        wf_registry (register (register bundles b k r1) b k r2) \<and>
        records_under (register (register bundles b k r1) b k r2) b k = [r2])"
  by (simp add: register_overwrites records_under_wf wf_registry_register lookup_register)

text \<open>The module \<open>/app/a.js\<close> of the small registry, registered again twice.\<close>

theorem register_twice_latest_witness:
  "wf_registry demo_registry
   \<and> lookup demo_registry ''app'' ''/app/a.js'' =
       Some \<lparr>name = ''a'', buildfile = ''/app/a.js'',
             builds = [(''a'', \<lparr>config = Some \<lparr>affinity = Some ''server''\<rparr>\<rparr>)]\<rparr>
   \<and> records_under
        (register (register demo_registry ''app'' ''/app/a.js''
                     \<lparr>name = ''a1'', buildfile = ''/app/a.js'', builds = []\<rparr>)
           ''app'' ''/app/a.js'' \<lparr>name = ''a2'', buildfile = ''/app/a.js'', builds = []\<rparr>)
        ''app'' ''/app/a.js''
     = [\<lparr>name = ''a2'', buildfile = ''/app/a.js'', builds = []\<rparr>]"
proof -
  have w: "wf_registry demo_registry"
    by (simp add: wf_registry_def demo_registry_def)
  have l: "lookup demo_registry ''app'' ''/app/a.js'' =
       Some \<lparr>name = ''a'', buildfile = ''/app/a.js'',
             builds = [(''a'', \<lparr>config = Some \<lparr>affinity = Some ''server''\<rparr>\<rparr>)]\<rparr>"
    by code_simp
  show ?thesis
    using w l register_twice_latest [of demo_registry "''app''" "''/app/a.js''"
        "\<lparr>name = ''a1'', buildfile = ''/app/a.js'', builds = []\<rparr>"
        "\<lparr>name = ''a2'', buildfile = ''/app/a.js'', builds = []\<rparr>"]
    by blast
qed

subsection \<open>What \<open>_buildsInBundle\<close> marks and registers\<close>

lemma indexOf_ge: "- 1 \<le> indexOf s t"
  by (induction s) (auto simp: Let_def)

lemma indexOf_zero_iff: "indexOf s t = 0 \<longleftrightarrow> prefix t s"
proof (cases s)
  case Nil
  then show ?thesis by simp
next
  case (Cons c s')
  have "- 1 \<le> indexOf s' t" by (rule indexOf_ge)
  with Cons show ?thesis by (auto simp: Let_def)
qed

lemma indexOf_absent_iff: "indexOf s t = - 1 \<longleftrightarrow> \<not> sublist t s"
proof (induction s)
  case Nil
  then show ?case by simp
next
  case (Cons c s)
  have "- 1 \<le> indexOf s t" by (rule indexOf_ge)
  with Cons show ?case
    by (auto simp: Let_def sublist_Cons_right)
qed

lemma modifiedModules_keys:
  "fst ` set (snd (modifiedModules E bn ms st)) =
   fst ` set (snd st) \<union> {f \<in> set ms. accepted_module E bn f}"
  by (induction ms arbitrary: st)
     (auto simp: accepted_module_def dom_update split: option.splits)

lemma modifiedModules_distinct:
  "distinct (map fst (snd st)) \<Longrightarrow> distinct (map fst (snd (modifiedModules E bn ms st)))"
  by (induction ms arbitrary: st) (auto simp: distinct_update split: option.splits)

lemma modifiedModules_lookup:
  "lookup (fst (modifiedModules E bn ms st)) b k =
   (if b = bn \<and> k \<in> set ms \<and> accepted_module E bn k then checkYUIModule E k
    else lookup (fst st) b k)"
  by (induction ms arbitrary: st)
     (auto simp: accepted_module_def lookup_register split: option.splits)

lemma markBuildFile_keys:
  "fst ` set (markBuildFile bd jf (dirname jf) ms marked) =
   fst ` set marked \<union> (if \<exists>f \<in> set ms. triggers bd jf f then {jf} else {})"
  by (induction ms arbitrary: marked)
     (auto simp: triggers_def Let_def dom_update indexOf_zero_iff indexOf_absent_iff)

lemma markBuildFile_distinct:
  "distinct (map fst marked) \<Longrightarrow> distinct (map fst (markBuildFile bd jf dir ms marked))"
  by (induction ms arbitrary: marked) (auto simp: Let_def distinct_update)

lemma buildFiles_keys:
  "fst ` set (snd (buildFiles E bn bd ms jfs st)) =
   fst ` set (snd st) \<union>
   {j \<in> set jfs. valid_descriptor E j \<and> (\<exists>f \<in> set ms. triggers bd j f)}"
proof (induction jfs arbitrary: st)
  case Nil
  then show ?case by simp
next
  case (Cons j jfs)
  show ?case
  proof (cases "valid_descriptor E j")
    case True
    then obtain r where r: "checkBuildFile E j = Some r" and b: "basename j = ''build.json''"
      by (auto simp: valid_descriptor_def)
    have "fst ` set (snd (buildFiles E bn bd ms (j # jfs) st)) =
          fst ` set (markBuildFile bd j (dirname j) ms (snd st)) \<union>
          {j \<in> set jfs. valid_descriptor E j \<and> (\<exists>f \<in> set ms. triggers bd j f)}"
      using r b by (simp add: Cons.IH)
    with True show ?thesis
      by (auto simp: markBuildFile_keys)
  next
    case False
    then have "buildFiles E bn bd ms (j # jfs) st = buildFiles E bn bd ms jfs st"
      by (auto simp: valid_descriptor_def split: option.splits)
    with False show ?thesis
      by (auto simp: Cons.IH)
  qed
qed

lemma buildFiles_distinct:
  "distinct (map fst (snd st)) \<Longrightarrow> distinct (map fst (snd (buildFiles E bn bd ms jfs st)))"
  by (induction jfs arbitrary: st) (auto simp: markBuildFile_distinct split: option.splits)

lemma buildFiles_lookup:
  "lookup (fst (buildFiles E bn bd ms jfs st)) b k =
   (if b = bn \<and> k \<in> set jfs \<and> valid_descriptor E k then checkBuildFile E k
    else lookup (fst st) b k)"
  by (induction jfs arbitrary: st)
     (auto simp: valid_descriptor_def lookup_register split: option.splits)

lemma set_sorted_or_empty: "set (sorted_or_empty files) = listed files"
  by (simp add: sorted_or_empty_def listed_def split: option.splits)

lemma buildsInBundle_targets:
  "set (snd (buildsInBundle E bundles b modifiedFiles jsonFiles)) =
   {f \<in> listed modifiedFiles. accepted_module E (bundleName b) f} \<union>
   {j \<in> listed jsonFiles. valid_descriptor E j \<and>
        (\<exists>f \<in> listed modifiedFiles. triggers (buildDirectory b) j f)}"
  by (simp add: buildsInBundle_def Let_def buildFiles_keys modifiedModules_keys set_sorted_or_empty)

lemma buildsInBundle_sorted_distinct:
  "sorted (snd (buildsInBundle E bundles b modifiedFiles jsonFiles)) \<and>
   distinct (snd (buildsInBundle E bundles b modifiedFiles jsonFiles))"
  by (simp add: buildsInBundle_def Let_def buildFiles_distinct modifiedModules_distinct)

lemma buildsInBundle_lookup:
  "lookup (fst (buildsInBundle E bundles b modifiedFiles jsonFiles)) bn k =
   (if bn = bundleName b \<and> k \<in> listed jsonFiles \<and> valid_descriptor E k then checkBuildFile E k
    else if bn = bundleName b \<and> k \<in> listed modifiedFiles \<and> accepted_module E (bundleName b) k
    then checkYUIModule E k
    else lookup bundles bn k)"
  by (simp add: buildsInBundle_def Let_def buildFiles_lookup modifiedModules_lookup set_sorted_or_empty)

lemma basename_build_json: "basename f = ''build.json'' \<Longrightarrow> extname f = ''.json''"
  by (simp add: extname_def)

lemma js_not_build_json: "extname f = ''.js'' \<Longrightarrow> basename f \<noteq> ''build.json''"
  using basename_build_json [of f] by auto

subsection \<open>What \<open>_getLoaderData\<close> hands to the builder\<close>

lemma passing_passes:
  "passing fltr m bk \<longleftrightarrow>
     (case map_of (builds m) bk of None \<Rightarrow> False | Some b \<Rightarrow> passes fltr m b)"
  by (simp add: passing_def passes_def split: option.splits)

lemma passing_key: "passing fltr m bk \<Longrightarrow> bk \<in> fst ` set (builds m)"
  by (auto simp: passing_passes split: option.splits dest: map_of_SomeD intro: rev_image_eqI)

lemma keptBuilds_other:
  "k' \<noteq> k \<Longrightarrow> map_of (keptBuilds fltr k m bks buildMeta) k' = map_of buildMeta k'"
  by (induction bks arbitrary: buildMeta) (auto simp: Let_def update_conv' split: option.splits)

lemma keptBuilds_none:
  "\<not> (\<exists>bk \<in> set bks. passing fltr m bk) \<Longrightarrow> keptBuilds fltr k m bks buildMeta = buildMeta"
  by (induction bks arbitrary: buildMeta) (auto simp: passing_passes split: option.splits)

lemma keptBuilds_entry:
  "map_of buildMeta k \<noteq> None \<or> (\<exists>bk \<in> set bks. passing fltr m bk) \<Longrightarrow>
   \<exists>e. map_of (keptBuilds fltr k m bks buildMeta) k = Some e \<and>
       merged fltr m (set bks) (map_of buildMeta k) e"
proof (induction bks arbitrary: buildMeta)
  case Nil
  then show ?case by (auto simp: merged_def)
next
  case (Cons bk bks)
  show ?case
  proof (cases "passing fltr m bk")
    case False
    then have eq: "keptBuilds fltr k m (bk # bks) buildMeta = keptBuilds fltr k m bks buildMeta"
      by (auto simp: passing_passes split: option.splits)
    from Cons.prems False
    have "map_of buildMeta k \<noteq> None \<or> (\<exists>bk \<in> set bks. passing fltr m bk)" by auto
    from Cons.IH [OF this] obtain e where
      e: "map_of (keptBuilds fltr k m bks buildMeta) k = Some e"
         "merged fltr m (set bks) (map_of buildMeta k) e" by blast
    from e(2) False have "merged fltr m (set (bk # bks)) (map_of buildMeta k) e"
      by (auto simp: merged_def)
    with e(1) eq show ?thesis by simp
  next
    case True
    then obtain b where b: "map_of (builds m) bk = Some b" "passes fltr m b"
      by (auto simp: passing_passes split: option.splits)
    define e0 where "e0 = (case map_of buildMeta k of Some e \<Rightarrow> e
                           | None \<Rightarrow> \<lparr>name = name m, buildfile = buildfile m, builds = []\<rparr>)"
    define e1 where "e1 = e0\<lparr>builds := AList.update bk b (builds e0)\<rparr>"
    define bm where "bm = AList.update k e1 buildMeta"
    have eq: "keptBuilds fltr k m (bk # bks) buildMeta = keptBuilds fltr k m bks bm"
      using b by (simp add: Let_def e0_def e1_def bm_def)
    have bmk: "map_of bm k = Some e1" by (simp add: bm_def update_conv')
    then have "map_of bm k \<noteq> None \<or> (\<exists>bk \<in> set bks. passing fltr m bk)" by simp
    from Cons.IH [OF this] obtain e where
      e: "map_of (keptBuilds fltr k m bks bm) k = Some e"
         "merged fltr m (set bks) (Some e1) e" using bmk by auto
    have "merged fltr m (set (bk # bks)) (map_of buildMeta k) e"
      using e(2) b True
      by (auto simp: merged_def e1_def e0_def update_conv' split: option.splits)
    with e(1) eq show ?thesis by simp
  qed
qed

lemma merged_trans:
  "merged fltr m S old e1 \<Longrightarrow> merged fltr m S (Some e1) e2 \<Longrightarrow> merged fltr m S old e2"
  by (auto simp: merged_def)

lemma filteredMeta_untouched:
  "k \<notin> set ks \<or> (\<forall>m. map_of meta k = Some m \<longrightarrow> \<not> survives fltr m) \<Longrightarrow>
   map_of (filteredMeta fltr meta ks bm) k = map_of bm k"
proof (induction ks arbitrary: bm)
  case Nil
  then show ?case by simp
next
  case (Cons k0 ks)
  show ?case
  proof (cases "map_of meta k0")
    case None
    with Cons show ?thesis by auto
  next
    case (Some m0)
    have "map_of (keptBuilds fltr k0 m0 (map fst (builds m0)) bm) k = map_of bm k"
    proof (cases "k0 = k")
      case True
      with Cons.prems Some have "\<not> survives fltr m0" by auto
      then show ?thesis by (simp add: survives_def keptBuilds_none)
    next
      case False
      then show ?thesis by (simp add: keptBuilds_other)
    qed
    moreover have "map_of (filteredMeta fltr meta ks (keptBuilds fltr k0 m0 (map fst (builds m0)) bm)) k
        = map_of (keptBuilds fltr k0 m0 (map fst (builds m0)) bm) k"
      using Cons.prems by (intro Cons.IH) auto
    ultimately show ?thesis using Some by simp
  qed
qed

lemma filteredMeta_entry:
  "k \<in> set ks \<Longrightarrow> map_of meta k = Some m \<Longrightarrow> survives fltr m \<Longrightarrow>
   \<exists>e. map_of (filteredMeta fltr meta ks bm) k = Some e \<and>
       merged fltr m (fst ` set (builds m)) (map_of bm k) e"
proof (induction ks arbitrary: bm)
  case Nil
  then show ?case by simp
next
  case (Cons k0 ks)
  show ?case
  proof (cases "k0 = k")
    case True
    define bm' where "bm' = keptBuilds fltr k m (map fst (builds m)) bm"
    have step: "filteredMeta fltr meta (k0 # ks) bm = filteredMeta fltr meta ks bm'"
      using True Cons.prems(2) by (simp add: bm'_def)
    have "\<exists>bk \<in> set (map fst (builds m)). passing fltr m bk"
      using Cons.prems(3) by (simp add: survives_def)
    then obtain e1 where e1: "map_of bm' k = Some e1"
        "merged fltr m (fst ` set (builds m)) (map_of bm k) e1"
      using keptBuilds_entry [of bm k "map fst (builds m)" fltr m] by (auto simp: bm'_def)
    show ?thesis
    proof (cases "k \<in> set ks")
      case True
      from Cons.IH [OF True Cons.prems(2,3), of bm'] e1(1) obtain e where
        e: "map_of (filteredMeta fltr meta ks bm') k = Some e"
           "merged fltr m (fst ` set (builds m)) (Some e1) e" by auto
      from merged_trans [OF e1(2) e(2)] e(1) step show ?thesis by simp
    next
      case False
      then have "map_of (filteredMeta fltr meta ks bm') k = map_of bm' k"
        by (simp add: filteredMeta_untouched)
      with e1 step show ?thesis by simp
    qed
  next
    case False
    with Cons.prems have in_ks: "k \<in> set ks" by simp
    show ?thesis
    proof (cases "map_of meta k0")
      case None
      with Cons.IH [OF in_ks Cons.prems(2,3), of bm] show ?thesis by simp
    next
      case (Some m0)
      define bm' where "bm' = keptBuilds fltr k0 m0 (map fst (builds m0)) bm"
      have same: "map_of bm' k = map_of bm k"
        using False by (simp add: bm'_def keptBuilds_other)
      from Cons.IH [OF in_ks Cons.prems(2,3), of bm'] same Some
      show ?thesis by (simp add: bm'_def)
    qed
  qed
qed

lemma merged_kept: "merged fltr m (fst ` set (builds m)) None e \<Longrightarrow> kept fltr m e"
  using passing_key by (auto simp: merged_def kept_def)

lemma filteredMeta_kept:
  assumes "map_of meta k = Some m" and "survives fltr m"
  shows "\<exists>e. map_of (filteredMeta fltr meta (map fst meta) []) k = Some e \<and> kept fltr m e"
proof -
  from assms(1) have "k \<in> set (map fst meta)"
    by (auto dest: map_of_SomeD intro: rev_image_eqI)
  from filteredMeta_entry [OF this assms, of "[]"] merged_kept
  show ?thesis by auto
qed

lemma lookup_registered: "lookup bundles bn k = map_of (registered bundles bn) k"
  by (simp add: lookup_def registered_def split: option.splits)

lemma filteredMeta_keys:
  "map_of (filteredMeta fltr meta (map fst meta) []) k \<noteq> None \<longleftrightarrow>
   (\<exists>m. map_of meta k = Some m \<and> survives fltr m)"
proof (cases "\<exists>m. map_of meta k = Some m \<and> survives fltr m")
  case True
  then show ?thesis using filteredMeta_kept [of meta k _ fltr] by fastforce
next
  case False
  then have "map_of (filteredMeta fltr meta (map fst meta) []) k = map_of [] k"
    by (intro filteredMeta_untouched) auto
  with False show ?thesis by simp
qed

lemma filteredMeta_empty_iff:
  "filteredMeta fltr meta (map fst meta) [] = [] \<longleftrightarrow>
   \<not> (\<exists>k m. map_of meta k = Some m \<and> survives fltr m)"
proof
  assume "filteredMeta fltr meta (map fst meta) [] = []"
  then have "\<forall>k. map_of (filteredMeta fltr meta (map fst meta) []) k = None" by simp
  then show "\<not> (\<exists>k m. map_of meta k = Some m \<and> survives fltr m)"
    using filteredMeta_keys [of fltr meta] by blast
next
  assume "\<not> (\<exists>k m. map_of meta k = Some m \<and> survives fltr m)"
  then have "\<forall>k. map_of (filteredMeta fltr meta (map fst meta) []) k = None"
    using filteredMeta_keys [of fltr meta] by blast
  then show "filteredMeta fltr meta (map fst meta) [] = []"
    by (cases "filteredMeta fltr meta (map fst meta) []") (auto split: if_splits)
qed

lemma own_or_none: "(if k \<in> fst ` set al then map_of al k else None) = map_of al k"
proof (cases "map_of al k")
  case None
  then show ?thesis by simp
next
  case (Some v)
  then have "k \<in> fst ` set al"
    by (auto dest: map_of_SomeD intro: rev_image_eqI)
  then show ?thesis by simp
qed

lemma keepBuilds_plain:
  "\<not> shadowed (builds m) \<Longrightarrow>
   keepBuilds fltr k m bks buildMeta = Inr (keptBuilds fltr k m bks buildMeta)"
  by (induction bks arbitrary: buildMeta)
     (simp_all add: hasOwnProperty_def shadowed_def own_or_none Let_def split: option.splits)

lemma keepBuilds_throws:
  "shadowed (builds m) \<Longrightarrow> bks \<noteq> [] \<Longrightarrow> keepBuilds fltr k m bks buildMeta = Inl TypeError"
  by (cases bks) (simp_all add: hasOwnProperty_def shadowed_def)

lemma filterMeta_plain:
  assumes "\<not> shadowed meta"
    and "\<forall>k m. map_of meta k = Some m \<longrightarrow> \<not> shadowed (builds m)"
  shows "filterMeta fltr meta ks buildMeta = Inr (filteredMeta fltr meta ks buildMeta)"
  using assms
  by (induction ks arbitrary: buildMeta)
     (simp_all add: hasOwnProperty_def shadowed_def [of meta] own_or_none keepBuilds_plain
        split: option.splits)

lemma filterMeta_throws:
  assumes "k \<in> set ks" and "map_of meta k = Some m" and "shadowed (builds m)"
  shows "filterMeta fltr meta ks buildMeta = Inl TypeError"
  using assms(1)
proof (induction ks arbitrary: buildMeta)
  case Nil
  then show ?case by simp
next
  case (Cons k0 ks)
  show ?case
  proof (cases "shadowed meta")
    case True
    then show ?thesis by (simp add: hasOwnProperty_def shadowed_def)
  next
    case False
    then have own: "hasOwnProperty meta k0 = Inr (k0 \<in> set (map fst meta))"
      by (simp add: hasOwnProperty_def shadowed_def)
    show ?thesis
    proof (cases "map_of meta k0")
      case None
      with assms(2) have "k0 \<noteq> k" by auto
      with Cons.prems have "k \<in> set ks" by simp
      from Cons.IH [OF this] None own show ?thesis by (simp add: own_or_none)
    next
      case (Some m0)
      show ?thesis
      proof (cases "shadowed (builds m0)")
        case True
        then have "map fst (builds m0) \<noteq> []"
          by (auto simp: shadowed_def)
        from keepBuilds_throws [OF True this] Some own show ?thesis
          by (simp add: own_or_none)
      next
        case False
        with Some assms(2,3) have "k0 \<noteq> k" by auto
        with Cons.prems have "k \<in> set ks" by simp
        from Cons.IH [OF this] Some own False show ?thesis
          by (simp add: own_or_none keepBuilds_plain)
      qed
    qed
  qed
qed

lemma getLoaderData_unfold:
  assumes "\<not> shadowed (registered bundles bn)"
    and "\<forall>k m. lookup bundles bn k = Some m \<longrightarrow> \<not> shadowed (builds m)"
  shows "getLoaderData E bundles bn fltr =
     Inr (if \<not> (\<exists>k m. lookup bundles bn k = Some m \<and> survives fltr m) then Undefined
          else (case compile E (''loader-'' @ bn) bn
                       (filteredMeta fltr (registered bundles bn)
                          (map fst (registered bundles bn)) []) of
                  None \<Rightarrow> Undefined
                | Some d \<Rightarrow> if json d = [] then Zero else Truthy d))"
proof -
  define meta where "meta = registered bundles bn"
  define buildMeta where "buildMeta = filteredMeta fltr meta (map fst meta) []"
  have f: "filterMeta fltr meta (map fst meta) [] = Inr buildMeta"
    unfolding buildMeta_def
    using assms by (intro filterMeta_plain) (simp_all add: meta_def lookup_registered)
  have g: "getLoaderData E bundles bn fltr =
      Inr (if buildMeta = [] then Undefined
           else (case compile E (''loader-'' @ bn) bn buildMeta of
                   None \<Rightarrow> Undefined
                 | Some d \<Rightarrow> if json d = [] then Zero else Truthy d))"
    using f by (simp add: getLoaderData_def Let_def meta_def registered_def
        cong: option.case_cong)
  have e: "buildMeta = [] \<longleftrightarrow> \<not> (\<exists>k m. lookup bundles bn k = Some m \<and> survives fltr m)"
    unfolding buildMeta_def lookup_registered meta_def by (rule filteredMeta_empty_iff)
  show ?thesis
    unfolding g e by (simp only: buildMeta_def meta_def)
qed

subsection \<open>Claims about the choice of targets\<close>

text \<open>
  What the second loop does with a valid build.json of the list of json files: it is among
  the targets exactly when it is among the modified files itself, or some modified \<open>.js\<close>
  file has a path that begins with the path of the build.json's directory and in which the
  path of the bundle's build directory does not occur. Both tests are made on the strings,
  with \<open>indexOf\<close>.
\<close>

lemma descriptor_targeted_iff:
  assumes "d \<in> listed jsonFiles" and "basename d = ''build.json''"
    and "checkBuildFile E d \<noteq> None"
  shows "(d \<in> set (snd (buildsInBundle E bundles b modifiedFiles jsonFiles)) \<longleftrightarrow>
            d \<in> listed modifiedFiles \<or>
            (\<exists>f \<in> listed modifiedFiles.
               extname f = ''.js'' \<and> prefix (dirname d) f \<and> \<not> sublist (buildDirectory b) f))
       \<and> (d \<notin> listed modifiedFiles \<and> (\<forall>f \<in> listed modifiedFiles. prefix (buildDirectory b) f)
            \<longrightarrow> d \<notin> set (snd (buildsInBundle E bundles b modifiedFiles jsonFiles)))"
proof -
  have v: "valid_descriptor E d"
    using assms by (simp add: valid_descriptor_def)
  have m: "\<not> accepted_module E (bundleName b) d"
    using assms(2) by (simp add: accepted_module_def basename_build_json)
  have iff: "d \<in> set (snd (buildsInBundle E bundles b modifiedFiles jsonFiles)) \<longleftrightarrow>
        (\<exists>f \<in> listed modifiedFiles. triggers (buildDirectory b) d f)"
    using v m assms(1) by (simp add: buildsInBundle_targets)
  have one: "(\<exists>f \<in> listed modifiedFiles. triggers (buildDirectory b) d f) \<longleftrightarrow>
        d \<in> listed modifiedFiles \<or>
        (\<exists>f \<in> listed modifiedFiles.
           extname f = ''.js'' \<and> prefix (dirname d) f \<and> \<not> sublist (buildDirectory b) f)"
    by (auto simp: triggers_def)
  have two: "\<not> (\<exists>f \<in> listed modifiedFiles. triggers (buildDirectory b) d f)"
    if "d \<notin> listed modifiedFiles" and "\<forall>f \<in> listed modifiedFiles. prefix (buildDirectory b) f"
    using that by (auto simp: triggers_def dest: prefix_imp_sublist)
  show ?thesis
    using iff one two by blast
qed

text \<open>
  C1. A valid build.json should be a target exactly when it was modified itself or a
  modified \<open>.js\<close> file lies under its directory and outside the build directory; the
  comment in the code says as much ("in the range, and it is not under build directory").
  The code misses it in both directions, with the build directory \<open>/app/build\<close>:
  a change in \<open>/app/widget-anim\<close>, which is not under \<open>/app/widget\<close>, makes
  \<open>/app/widget/build.json\<close> a target, because the one path begins with the other; and a
  change in \<open>/app/builder\<close>, or in \<open>/srv/app/build-scripts\<close>, under the build.json's own
  directory and outside the build directory, does not make that build.json a target,
  because \<open>/app/build\<close> occurs in the path.
\<close>

theorem descriptor_targeting_ignores_separators:
  "''/app/widget/build.json'' \<in> set (snd (buildsInBundle
       (demo_env [] [''/app/widget/build.json''] []) [] demo_bundle
       (Some [''/app/widget-anim/js/anim.js'']) (Some [''/app/widget/build.json''])))
   \<and> ''/app/widget/build.json'' \<notin> set [''/app/widget-anim/js/anim.js'']
   \<and> \<not> lies_under (dirname ''/app/widget/build.json'') ''/app/widget-anim/js/anim.js''
   \<and> ''/app/builder/build.json'' \<notin> set (snd (buildsInBundle
       (demo_env [] [''/app/builder/build.json''] []) [] demo_bundle
       (Some [''/app/builder/x.js'']) (Some [''/app/builder/build.json''])))
   \<and> checkBuildFile (demo_env [] [''/app/builder/build.json''] []) ''/app/builder/build.json''
       \<noteq> None
   \<and> extname ''/app/builder/x.js'' = ''.js''
   \<and> lies_under (dirname ''/app/builder/build.json'') ''/app/builder/x.js''
   \<and> \<not> lies_under (buildDirectory demo_bundle) ''/app/builder/x.js''
   \<and> ''/srv/app/build-scripts/build.json'' \<notin> set (snd (buildsInBundle
       (demo_env [] [''/srv/app/build-scripts/build.json''] []) [] demo_bundle
       (Some [''/srv/app/build-scripts/x.js'']) (Some [''/srv/app/build-scripts/build.json''])))
   \<and> extname ''/srv/app/build-scripts/x.js'' = ''.js''
   \<and> lies_under (dirname ''/srv/app/build-scripts/build.json'') ''/srv/app/build-scripts/x.js''
   \<and> \<not> lies_under (buildDirectory demo_bundle) ''/srv/app/build-scripts/x.js''"
  by code_simp

text \<open>
  C2. The targets depend on the two lists only through the files they hold: two calls
  whose lists of modified files are permutations of each other, and whose lists of json
  files are, return the same list of targets, whatever the registry held, and leave the
  same registry when they start from the same one. The list is sorted and has no
  duplicates. The shifter's checks are taken to answer the same for the same file.
\<close>

theorem targets_order_insensitive:
  assumes "mset ms1 = mset ms2" and "mset jfs1 = mset jfs2"
  shows "snd (buildsInBundle E bundles1 b (Some ms1) (Some jfs1)) =
         snd (buildsInBundle E bundles2 b (Some ms2) (Some jfs2))
       \<and> buildsInBundle E bundles1 b (Some ms1) (Some jfs1) =
         buildsInBundle E bundles1 b (Some ms2) (Some jfs2)
       \<and> sorted (snd (buildsInBundle E bundles1 b (Some ms1) (Some jfs1)))
       \<and> distinct (snd (buildsInBundle E bundles1 b (Some ms1) (Some jfs1)))"
proof -
  have s1: "sort ms1 = sort ms2"
    using assms(1) by (metis mset_sort properties_for_sort sorted_sort)
  have s2: "sort jfs1 = sort jfs2"
    using assms(2) by (metis mset_sort properties_for_sort sorted_sort)
  have l: "listed (Some ms1) = listed (Some ms2)" "listed (Some jfs1) = listed (Some jfs2)"
    using assms by (auto simp: listed_def dest: mset_eq_setD)
  have "set (snd (buildsInBundle E bundles1 b (Some ms1) (Some jfs1))) =
        set (snd (buildsInBundle E bundles2 b (Some ms2) (Some jfs2)))"
    by (simp only: buildsInBundle_targets l)
  then have a: "snd (buildsInBundle E bundles1 b (Some ms1) (Some jfs1)) =
        snd (buildsInBundle E bundles2 b (Some ms2) (Some jfs2))"
    using buildsInBundle_sorted_distinct sorted_distinct_set_unique by blast
  have b: "buildsInBundle E bundles1 b (Some ms1) (Some jfs1) =
        buildsInBundle E bundles1 b (Some ms2) (Some jfs2)"
    by (simp add: buildsInBundle_def sorted_or_empty_def s1 s2)
  show ?thesis
    using a b buildsInBundle_sorted_distinct by blast
qed

theorem targets_order_insensitive_witness:
  "mset [''/app/b/y.js'', ''/app/a/x.js'', ''/app/a/x.js''] =
   mset [''/app/a/x.js'', ''/app/b/y.js'', ''/app/a/x.js'']
   \<and> snd (buildsInBundle (demo_env [''/app/a/x.js'', ''/app/b/y.js''] [''/app/a/build.json''] [])
        [] demo_bundle (Some [''/app/b/y.js'', ''/app/a/x.js'', ''/app/a/x.js''])
        (Some [''/app/a/build.json'']))
     = [''/app/a/build.json'', ''/app/a/x.js'', ''/app/b/y.js'']
   \<and> snd (buildsInBundle (demo_env [''/app/a/x.js'', ''/app/b/y.js''] [''/app/a/build.json''] [])
        demo_registry demo_bundle (Some [''/app/a/x.js'', ''/app/b/y.js'', ''/app/a/x.js''])
        (Some [''/app/a/build.json'']))
     = [''/app/a/build.json'', ''/app/a/x.js'', ''/app/b/y.js'']"
proof -
  have m: "mset [''/app/b/y.js'', ''/app/a/x.js'', ''/app/a/x.js''] =
           mset [''/app/a/x.js'', ''/app/b/y.js'', ''/app/a/x.js'']"
    by simp
  have e: "snd (buildsInBundle (demo_env [''/app/a/x.js'', ''/app/b/y.js''] [''/app/a/build.json''] [])
        [] demo_bundle (Some [''/app/b/y.js'', ''/app/a/x.js'', ''/app/a/x.js''])
        (Some [''/app/a/build.json'']))
     = [''/app/a/build.json'', ''/app/a/x.js'', ''/app/b/y.js'']"
    by code_simp
  from targets_order_insensitive [OF m refl,
        of "demo_env [''/app/a/x.js'', ''/app/b/y.js''] [''/app/a/build.json''] []"
        "[]" demo_bundle "[''/app/a/build.json'']" demo_registry]
  have t: "snd (buildsInBundle (demo_env [''/app/a/x.js'', ''/app/b/y.js''] [''/app/a/build.json''] [])
        [] demo_bundle (Some [''/app/b/y.js'', ''/app/a/x.js'', ''/app/a/x.js''])
        (Some [''/app/a/build.json''])) =
      snd (buildsInBundle (demo_env [''/app/a/x.js'', ''/app/b/y.js''] [''/app/a/build.json''] [])
        demo_registry demo_bundle (Some [''/app/a/x.js'', ''/app/b/y.js'', ''/app/a/x.js''])
        (Some [''/app/a/build.json'']))"
    by blast
  show ?thesis
    using m e trans [OF t [symmetric] e] by (intro conjI)
qed

text \<open>
  C4. A file whose base name is \<open>loader-<bundleName>.js\<close> is never among the targets
  that \<open>_buildsInBundle\<close> returns, whether it is in the list of modified files or not and
  whatever the shifter's check says of it: the first loop passes over it before the
  check, and the second loop marks files named \<open>build.json\<close> only.
\<close>

theorem loader_module_never_targeted:
  assumes "basename f = ''loader-'' @ bundleName b @ ''.js''"
  shows "f \<notin> set (snd (buildsInBundle E bundles b modifiedFiles jsonFiles))"
  using assms by (simp add: buildsInBundle_targets accepted_module_def valid_descriptor_def)

theorem loader_module_never_targeted_witness:
  "basename ''/app/loader-app.js'' = ''loader-'' @ bundleName demo_bundle @ ''.js''
   \<and> extname ''/app/loader-app.js'' = ''.js''
   \<and> checkYUIModule (demo_env [''/app/loader-app.js'', ''/app/a.js''] [] [])
        ''/app/loader-app.js'' \<noteq> None
   \<and> ''/app/loader-app.js'' \<notin> set (snd (buildsInBundle
        (demo_env [''/app/loader-app.js'', ''/app/a.js''] [] []) [] demo_bundle
        (Some [''/app/loader-app.js'', ''/app/a.js'']) (Some [])))
   \<and> ''/app/a.js'' \<in> set (snd (buildsInBundle
        (demo_env [''/app/loader-app.js'', ''/app/a.js''] [] []) [] demo_bundle
        (Some [''/app/loader-app.js'', ''/app/a.js'']) (Some [])))"
proof -
  have h: "basename ''/app/loader-app.js'' = ''loader-'' @ bundleName demo_bundle @ ''.js''"
    by code_simp
  have e: "extname ''/app/loader-app.js'' = ''.js''"
    by code_simp
  have c: "checkYUIModule (demo_env [''/app/loader-app.js'', ''/app/a.js''] [] [])
        ''/app/loader-app.js'' \<noteq> None"
    by (simp add: demo_env_def accept_def)
  have a: "''/app/a.js'' \<in> set (snd (buildsInBundle
        (demo_env [''/app/loader-app.js'', ''/app/a.js''] [] []) [] demo_bundle
        (Some [''/app/loader-app.js'', ''/app/a.js'']) (Some [])))"
    by code_simp
  show ?thesis
    using h e c a loader_module_never_targeted [OF h] by simp
qed

text \<open>
  C6. A file named \<open>build.json\<close> that the descriptor check rejects, and a \<open>.js\<close> file that the
  module check rejects, is not among the targets and its entry in the registry, under
  any bundle, is what it was before the call. The scan goes on past it: every modified
  file that the first loop accepts is a target and registered with the record of its
  check, and every valid build.json of the json files is registered with its record and
  is a target exactly when a modified file triggers it.
\<close>

theorem failing_check_skips_file_only:
  "((basename f = ''build.json'' \<and> checkBuildFile E f = None) \<or>
    (extname f = ''.js'' \<and> checkYUIModule E f = None) \<longrightarrow>
      f \<notin> set (snd (buildsInBundle E bundles b modifiedFiles jsonFiles)) \<and>
      lookup (fst (buildsInBundle E bundles b modifiedFiles jsonFiles)) bn f = lookup bundles bn f)
   \<and> (\<forall>g \<in> listed modifiedFiles. accepted_module E (bundleName b) g \<longrightarrow>
         g \<in> set (snd (buildsInBundle E bundles b modifiedFiles jsonFiles)) \<and>
         lookup (fst (buildsInBundle E bundles b modifiedFiles jsonFiles)) (bundleName b) g =
           checkYUIModule E g)
   \<and> (\<forall>g \<in> listed jsonFiles. valid_descriptor E g \<longrightarrow>
         lookup (fst (buildsInBundle E bundles b modifiedFiles jsonFiles)) (bundleName b) g =
           checkBuildFile E g \<and>
         (g \<in> set (snd (buildsInBundle E bundles b modifiedFiles jsonFiles)) \<longleftrightarrow>
           (\<exists>f \<in> listed modifiedFiles. triggers (buildDirectory b) g f)))"
proof -
  have skip: "\<not> accepted_module E (bundleName b) f \<and> \<not> valid_descriptor E f"
    if "(basename f = ''build.json'' \<and> checkBuildFile E f = None) \<or>
        (extname f = ''.js'' \<and> checkYUIModule E f = None)"
    using that
    by (auto simp: accepted_module_def valid_descriptor_def basename_build_json
        dest: js_not_build_json)
  have mod_not_desc: "\<not> valid_descriptor E g" if "accepted_module E (bundleName b) g" for g
    using that by (auto simp: accepted_module_def valid_descriptor_def dest: js_not_build_json)
  have desc_not_mod: "\<not> accepted_module E (bundleName b) g" if "valid_descriptor E g" for g
    using that mod_not_desc by blast
  show ?thesis
    using skip mod_not_desc desc_not_mod
    by (auto simp: buildsInBundle_targets buildsInBundle_lookup)
qed

text \<open>
  Between two rejected files the scan registers and marks the files around them.
\<close>

theorem failing_check_skips_file_only_witness:
  "basename ''/app/bad/build.json'' = ''build.json''
   \<and> checkBuildFile (demo_env [''/app/a.js'', ''/app/z.js''] [''/app/widget/build.json''] [])
        ''/app/bad/build.json'' = None
   \<and> extname ''/app/bad.js'' = ''.js''
   \<and> checkYUIModule (demo_env [''/app/a.js'', ''/app/z.js''] [''/app/widget/build.json''] [])
        ''/app/bad.js'' = None
   \<and> buildsInBundle (demo_env [''/app/a.js'', ''/app/z.js''] [''/app/widget/build.json''] [])
        [] demo_bundle
        (Some [''/app/a.js'', ''/app/bad.js'', ''/app/bad/build.json'', ''/app/widget/w.js'', ''/app/z.js''])
        (Some [''/app/bad/build.json'', ''/app/widget/build.json''])
     = ([(''app'',
          [(''/app/a.js'', \<lparr>name = ''a.js'', buildfile = ''/app/a.js'',
                              builds = [(''a.js'', \<lparr>config = None\<rparr>)]\<rparr>),
           (''/app/z.js'', \<lparr>name = ''z.js'', buildfile = ''/app/z.js'',
                              builds = [(''z.js'', \<lparr>config = None\<rparr>)]\<rparr>),
           (''/app/widget/build.json'',
              \<lparr>name = ''build.json'', buildfile = ''/app/widget/build.json'',
               builds = [(''build.json'', \<lparr>config = None\<rparr>)]\<rparr>)])],
        [''/app/a.js'', ''/app/widget/build.json'', ''/app/z.js''])
   \<and> ''/app/bad/build.json'' \<notin> set (snd (buildsInBundle
        (demo_env [''/app/a.js'', ''/app/z.js''] [''/app/widget/build.json''] [])
        [] demo_bundle
        (Some [''/app/a.js'', ''/app/bad.js'', ''/app/bad/build.json'', ''/app/widget/w.js'', ''/app/z.js''])
        (Some [''/app/bad/build.json'', ''/app/widget/build.json''])))"
proof -
  have h1: "basename ''/app/bad/build.json'' = ''build.json''
      \<and> checkBuildFile (demo_env [''/app/a.js'', ''/app/z.js''] [''/app/widget/build.json''] [])
           ''/app/bad/build.json'' = None"
    by code_simp
  have h2: "extname ''/app/bad.js'' = ''.js''
      \<and> checkYUIModule (demo_env [''/app/a.js'', ''/app/z.js''] [''/app/widget/build.json''] [])
           ''/app/bad.js'' = None"
    by code_simp
  have r: "buildsInBundle (demo_env [''/app/a.js'', ''/app/z.js''] [''/app/widget/build.json''] [])
        [] demo_bundle
        (Some [''/app/a.js'', ''/app/bad.js'', ''/app/bad/build.json'', ''/app/widget/w.js'', ''/app/z.js''])
        (Some [''/app/bad/build.json'', ''/app/widget/build.json''])
     = ([(''app'',
          [(''/app/a.js'', \<lparr>name = ''a.js'', buildfile = ''/app/a.js'',
                              builds = [(''a.js'', \<lparr>config = None\<rparr>)]\<rparr>),
           (''/app/z.js'', \<lparr>name = ''z.js'', buildfile = ''/app/z.js'',
                              builds = [(''z.js'', \<lparr>config = None\<rparr>)]\<rparr>),
           (''/app/widget/build.json'',
              \<lparr>name = ''build.json'', buildfile = ''/app/widget/build.json'',
               builds = [(''build.json'', \<lparr>config = None\<rparr>)]\<rparr>)])],
        [''/app/a.js'', ''/app/widget/build.json'', ''/app/z.js''])"
    by code_simp
  from failing_check_skips_file_only [of "''/app/bad/build.json''"
      "demo_env [''/app/a.js'', ''/app/z.js''] [''/app/widget/build.json''] []" "[]" demo_bundle
      "Some [''/app/a.js'', ''/app/bad.js'', ''/app/bad/build.json'', ''/app/widget/w.js'', ''/app/z.js'']"
      "Some [''/app/bad/build.json'', ''/app/widget/build.json'']" "''app''"] h1
  have t: "''/app/bad/build.json'' \<notin> set (snd (buildsInBundle
        (demo_env [''/app/a.js'', ''/app/z.js''] [''/app/widget/build.json''] [])
        [] demo_bundle
        (Some [''/app/a.js'', ''/app/bad.js'', ''/app/bad/build.json'', ''/app/widget/w.js'', ''/app/z.js''])
        (Some [''/app/bad/build.json'', ''/app/widget/build.json''])))"
    by blast
  show ?thesis using h1 h2 r t by simp
qed

subsection \<open>Claims about loader data\<close>

lemma json_keys:
  "fst ` set (foldl (\<lambda>j (k, m). AList.update (name m) (Built m) j) j0 xs) =
   fst ` set j0 \<union> (\<lambda>(k, m). name m) ` set xs"
proof (induction xs arbitrary: j0)
  case Nil
  then show ?case by simp
next
  case (Cons p xs)
  obtain k m where p: "p = (k, m)" by (cases p)
  have "fst ` set (foldl (\<lambda>j (k, m). AList.update (name m) (Built m) j) j0 (p # xs)) =
        fst ` set (AList.update (name m) (Built m) j0) \<union> (\<lambda>(k, m). name m) ` set xs"
    using p by (simp add: Cons.IH)
  also have "\<dots> = ({name m} \<union> fst ` set j0) \<union> (\<lambda>(k, m). name m) ` set xs"
    by (simp only: dom_update)
  also have "\<dots> = fst ` set j0 \<union> (\<lambda>(k, m). name m) ` set (p # xs)"
    using p by auto
  finally show ?case .
qed

lemma json_entry:
  "map_of (foldl (\<lambda>j (k, m). AList.update (name m) (Built m) j) j0 xs) n = Some x \<Longrightarrow>
   map_of j0 n = Some x \<or> (\<exists>(k, m) \<in> set xs. name m = n \<and> x = Built m)"
proof (induction xs arbitrary: j0)
  case Nil
  then show ?case by simp
next
  case (Cons p xs)
  obtain k m where p: "p = (k, m)" by (cases p)
  from Cons.prems p
  have "map_of (foldl (\<lambda>j (k, m). AList.update (name m) (Built m) j)
                  (AList.update (name m) (Built m) j0) xs) n = Some x"
    by simp
  from Cons.IH [OF this] p show ?case
    by (auto simp: update_conv' split: if_splits)
qed

lemma keptBuilds_distinct:
  "distinct (map fst buildMeta) \<Longrightarrow> distinct (map fst (keptBuilds fltr k m bks buildMeta))"
  by (induction bks arbitrary: buildMeta)
     (auto simp: Let_def distinct_update split: option.splits)

lemma filteredMeta_distinct:
  "distinct (map fst buildMeta) \<Longrightarrow> distinct (map fst (filteredMeta fltr meta ks buildMeta))"
  by (induction ks arbitrary: buildMeta)
     (auto simp: keptBuilds_distinct split: option.splits)

lemma filteredMeta_members:
  assumes "(k, e) \<in> set (filteredMeta fltr meta (map fst meta) [])"
  shows "\<exists>m. map_of meta k = Some m \<and> survives fltr m \<and> kept fltr m e"
proof -
  have "distinct (map fst (filteredMeta fltr meta (map fst meta) []))"
    by (rule filteredMeta_distinct) simp
  with assms have e: "map_of (filteredMeta fltr meta (map fst meta) []) k = Some e"
    by simp
  then obtain m where m: "map_of meta k = Some m" "survives fltr m"
    using filteredMeta_keys [of fltr meta k] by auto
  from filteredMeta_kept [OF m] e have "kept fltr m e" by auto
  with m show ?thesis by blast
qed

text \<open>
  On a registry in which no object is shadowed, \<open>_getLoaderData\<close> returns \<open>undefined\<close>,
  without asking the builder, when no build of a module registered for the bundle passes
  the filter. Otherwise, with the builder of the specification, it returns loader data
  whose \<open>json\<close> has exactly the names of the registered modules of which a build passes,
  and under each name such a module with its name, its buildfile and the builds that pass.
\<close>

lemma getLoaderData_filtered:
  assumes "\<not> shadowed (registered bundles bn)"
    and "\<forall>k m. lookup bundles bn k = Some m \<longrightarrow> \<not> shadowed (builds m)"
  shows "(\<not> (\<exists>k m. lookup bundles bn k = Some m \<and> survives fltr m) \<longrightarrow>
      getLoaderData E bundles bn fltr = Inr Undefined)
   \<and> ((\<exists>k m. lookup bundles bn k = Some m \<and> survives fltr m) \<longrightarrow>
      (\<exists>d. getLoaderData (E\<lparr>compile := BuilderClass_compile render\<rparr>) bundles bn fltr =
             Inr (Truthy d) \<and>
           (\<forall>n. n \<in> set (map fst (json d)) \<longleftrightarrow>
                (\<exists>k m. lookup bundles bn k = Some m \<and> survives fltr m \<and> name m = n)) \<and>
           (\<forall>n x. map_of (json d) n = Some x \<longrightarrow>
                (\<exists>k m e. lookup bundles bn k = Some m \<and> survives fltr m \<and> name m = n \<and>
                         x = Built e \<and> kept fltr m e))))"
proof (intro conjI impI)
  assume "\<not> (\<exists>k m. lookup bundles bn k = Some m \<and> survives fltr m)"
  then show "getLoaderData E bundles bn fltr = Inr Undefined"
    by (simp add: getLoaderData_unfold [OF assms])
next
  assume some: "\<exists>k m. lookup bundles bn k = Some m \<and> survives fltr m"
  define meta where "meta = registered bundles bn"
  define buildMeta where "buildMeta = filteredMeta fltr meta (map fst meta) []"
  define j where "j = foldl (\<lambda>j (k, m). AList.update (name m) (Built m) j) [] buildMeta"
  define d where "d = \<lparr>json = j, js = render (''loader-'' @ bn) bn j\<rparr>"
  have ne: "buildMeta \<noteq> []"
    using some filteredMeta_empty_iff [of fltr meta]
    by (simp add: buildMeta_def meta_def lookup_registered)
  have members: "(\<exists>m. lookup bundles bn k = Some m \<and> survives fltr m \<and> kept fltr m e)"
    if "(k, e) \<in> set buildMeta" for k e
    using filteredMeta_members [of k e fltr meta] that
    by (simp add: buildMeta_def meta_def lookup_registered)
  have present: "\<exists>e. (k, e) \<in> set buildMeta \<and> kept fltr m e"
    if "lookup bundles bn k = Some m" "survives fltr m" for k m
  proof -
    from that have "map_of meta k = Some m" by (simp add: meta_def lookup_registered)
    from filteredMeta_kept [OF this that(2)] show ?thesis
      by (auto simp: buildMeta_def dest: map_of_SomeD)
  qed
  have jkeys: "fst ` set j = (\<lambda>(k, m). name m) ` set buildMeta"
    by (simp add: j_def json_keys)
  have jne: "j \<noteq> []"
  proof -
    from ne have "(\<lambda>(k, m). name m) ` set buildMeta \<noteq> {}" by simp
    with jkeys show ?thesis by auto
  qed
  have res: "getLoaderData (E\<lparr>compile := BuilderClass_compile render\<rparr>) bundles bn fltr =
      Inr (Truthy d)"
    using some jne
    by (simp add: getLoaderData_unfold [OF assms] BuilderClass_compile_def Let_def d_def j_def
        buildMeta_def meta_def)
  have keys: "n \<in> set (map fst (json d)) \<longleftrightarrow>
      (\<exists>k m. lookup bundles bn k = Some m \<and> survives fltr m \<and> name m = n)" for n
  proof
    assume "n \<in> set (map fst (json d))"
    then have "n \<in> (\<lambda>(k, m). name m) ` set buildMeta"
      using jkeys by (simp add: d_def)
    then obtain k e where ke: "(k, e) \<in> set buildMeta" "name e = n" by auto
    from members [OF ke(1)] obtain m where
      m: "lookup bundles bn k = Some m" "survives fltr m" "kept fltr m e" by blast
    from m(3) ke(2) have "name m = n" by (simp add: kept_def)
    with m show "\<exists>k m. lookup bundles bn k = Some m \<and> survives fltr m \<and> name m = n"
      by blast
  next
    assume "\<exists>k m. lookup bundles bn k = Some m \<and> survives fltr m \<and> name m = n"
    then obtain k m where km: "lookup bundles bn k = Some m" "survives fltr m" "name m = n"
      by blast
    from present [OF km(1,2)] obtain e where "(k, e) \<in> set buildMeta" "kept fltr m e"
      by blast
    with km(3) have "n \<in> (\<lambda>(k, m). name m) ` set buildMeta"
      by (force simp: kept_def)
    with jkeys show "n \<in> set (map fst (json d))" by (simp add: d_def)
  qed
  have ents: "\<exists>k m e. lookup bundles bn k = Some m \<and> survives fltr m \<and> name m = n \<and>
                      x = Built e \<and> kept fltr m e"
    if "map_of (json d) n = Some x" for n x
  proof -
    from that have "map_of j n = Some x" by (simp add: d_def)
    from json_entry [OF this [unfolded j_def]]
    obtain k e where ke: "(k, e) \<in> set buildMeta" "name e = n" "x = Built e" by auto
    from members [OF ke(1)] obtain m where
      m: "lookup bundles bn k = Some m" "survives fltr m" "kept fltr m e" by blast
    from m(3) ke(2) have "name m = n" by (simp add: kept_def)
    with m ke(3) show ?thesis by blast
  qed
  show "\<exists>d. getLoaderData (E\<lparr>compile := BuilderClass_compile render\<rparr>) bundles bn fltr =
             Inr (Truthy d) \<and>
           (\<forall>n. n \<in> set (map fst (json d)) \<longleftrightarrow>
                (\<exists>k m. lookup bundles bn k = Some m \<and> survives fltr m \<and> name m = n)) \<and>
           (\<forall>n x. map_of (json d) n = Some x \<longrightarrow>
                (\<exists>k m e. lookup bundles bn k = Some m \<and> survives fltr m \<and> name m = n \<and>
                         x = Built e \<and> kept fltr m e))"
    using res keys ents by blast
qed

text \<open>
  C3. \<open>_getLoaderData\<close> should return \<open>undefined\<close> when no build passes the filter and
  loader data otherwise, for every registry. It does not when a registered module has a
  build named \<open>hasOwnProperty\<close>: the guard \<open>meta[mod].builds.hasOwnProperty(build)\<close> then
  calls the build stored under that name, and the call throws a \<open>TypeError\<close> before any
  build is filtered, whatever the filter and the builder are.
\<close>

theorem getLoaderData_throws_on_hasOwnProperty:
  assumes "lookup bundles bn k = Some m"
    and "map_of (builds m) ''hasOwnProperty'' \<noteq> None"
  shows "getLoaderData E bundles bn fltr = Inl TypeError"
proof -
  from assms(1) have m: "map_of (registered bundles bn) k = Some m"
    by (simp add: lookup_registered)
  then have k: "k \<in> set (map fst (registered bundles bn))"
    by (auto dest: map_of_SomeD intro: rev_image_eqI)
  have s: "shadowed (builds m)"
    using assms(2) by (simp add: shadowed_def)
  have "filterMeta fltr (registered bundles bn) (map fst (registered bundles bn)) [] =
        Inl TypeError"
    using k m s by (rule filterMeta_throws)
  then show ?thesis
    by (simp add: getLoaderData_def Let_def registered_def)
qed

text \<open>
  The only build of the widget is for the server, so that no build passes the client
  filter, and the call throws where \<open>undefined\<close> is due.
\<close>

theorem getLoaderData_throws_on_hasOwnProperty_witness:
  "lookup shadow_registry ''app'' ''/app/widget/build.json'' =
     Some \<lparr>name = ''widget'', buildfile = ''/app/widget/build.json'',
           builds = [(''hasOwnProperty'', \<lparr>config = Some \<lparr>affinity = Some ''server''\<rparr>\<rparr>)]\<rparr>
   \<and> map_of (builds \<lparr>name = ''widget'', buildfile = ''/app/widget/build.json'',
           builds = [(''hasOwnProperty'', \<lparr>config = Some \<lparr>affinity = Some ''server''\<rparr>\<rparr>)]\<rparr>)
         ''hasOwnProperty'' \<noteq> None
   \<and> \<not> survives client_view
         \<lparr>name = ''widget'', buildfile = ''/app/widget/build.json'',
          builds = [(''hasOwnProperty'', \<lparr>config = Some \<lparr>affinity = Some ''server''\<rparr>\<rparr>)]\<rparr>
   \<and> getLoaderData (demo_env [] [] []) shadow_registry ''app'' client_view = Inl TypeError"
proof -
  have l: "lookup shadow_registry ''app'' ''/app/widget/build.json'' =
     Some \<lparr>name = ''widget'', buildfile = ''/app/widget/build.json'',
           builds = [(''hasOwnProperty'', \<lparr>config = Some \<lparr>affinity = Some ''server''\<rparr>\<rparr>)]\<rparr>"
    by code_simp
  have h: "map_of (builds \<lparr>name = ''widget'', buildfile = ''/app/widget/build.json'',
           builds = [(''hasOwnProperty'', \<lparr>config = Some \<lparr>affinity = Some ''server''\<rparr>\<rparr>)]\<rparr>)
         ''hasOwnProperty'' \<noteq> None"
    by simp
  have n: "\<not> survives client_view
         \<lparr>name = ''widget'', buildfile = ''/app/widget/build.json'',
          builds = [(''hasOwnProperty'', \<lparr>config = Some \<lparr>affinity = Some ''server''\<rparr>\<rparr>)]\<rparr>"
    by code_simp
  have e: "getLoaderData (demo_env [] [] []) shadow_registry ''app'' client_view = Inl TypeError"
    by code_simp
  show ?thesis
    using l h n e getLoaderData_throws_on_hasOwnProperty [OF l h, of "demo_env [] [] []" client_view]
    by (intro conjI)
qed




text \<open>
  C10. With falsy loader data, \<open>undefined\<close> or \<open>0\<close>, \<open>_attachServerLoaderData\<close> and
  \<open>_attachClientLoaderData\<close> leave the bundle as it is, so that a bundle without \<open>yui\<close>
  still has none, and \<open>_attachClientLoaderData\<close> calls \<open>api.writeFileInBundle\<close> not at all
  and returns the falsy value it was given.
\<close>

theorem attach_absent_loader_data:
  "attachServerLoaderData b Undefined = b
   \<and> attachServerLoaderData b Zero = b
   \<and> yui (attachServerLoaderData (b\<lparr>yui := None\<rparr>) Undefined) = None
   \<and> yui (attachServerLoaderData (b\<lparr>yui := None\<rparr>) Zero) = None
   \<and> attachClientLoaderData E b destPath Undefined = (b, [], Inr Undefined)
   \<and> attachClientLoaderData E b destPath Zero = (b, [], Inr Zero)
   \<and> yui (fst (attachClientLoaderData E (b\<lparr>yui := None\<rparr>) destPath Undefined)) = None
   \<and> yui (fst (attachClientLoaderData E (b\<lparr>yui := None\<rparr>) destPath Zero)) = None"
  by (simp add: attachServerLoaderData_def attachClientLoaderData_def)

theorem attach_absent_loader_data_witness:
  "attachServerLoaderData demo_bundle Undefined = demo_bundle
   \<and> yui (attachServerLoaderData demo_bundle Undefined) = None
   \<and> attachClientLoaderData (demo_env [] [] []) demo_bundle ''loader-app.js'' Undefined =
       (demo_bundle, [], Inr Undefined)
   \<and> fst (snd (attachClientLoaderData (demo_env [] [] []) demo_bundle ''loader-app.js''
        (Truthy \<lparr>json = [], js = ''YUI.add()''\<rparr>))) = [(''app'', ''loader-app.js'', ''YUI.add()'')]"
proof -
  have y: "yui demo_bundle = None" by (simp add: demo_bundle_def)
  have w: "fst (snd (attachClientLoaderData (demo_env [] [] []) demo_bundle ''loader-app.js''
        (Truthy \<lparr>json = [], js = ''YUI.add()''\<rparr>))) = [(''app'', ''loader-app.js'', ''YUI.add()'')]"
    by code_simp
  show ?thesis
    using y w attach_absent_loader_data [of demo_bundle "demo_env [] [] []" "''loader-app.js''"]
    by simp
qed

subsection \<open>Claims about the change event\<close>

text \<open>
  C7. With no modified file, \<open>_buildsInBundle\<close> returns no target. When the list that
  \<open>utils.filterFilesInBundle\<close> hands on is empty or missing, \<open>bundleUpdated\<close> returns no
  promise, whatever the registry holds: the bundle is unchanged, nothing is written and
  the shifter is not called. (The valid build.json files of the bundle are registered all
  the same, by \<open>_buildsInBundle\<close>.)
\<close>

theorem empty_modified_list_no_op:
  "(listed modifiedFiles = {} \<longrightarrow>
      snd (buildsInBundle E bundles b modifiedFiles jsonFiles) = [])
   \<and> (listed (filterFilesInBundle E (evt_bundle evt) (evt_files evt)) = {} \<longrightarrow>
      outcome (bundleUpdated D E bundles evt) = NoPromise \<and>
      bundle_after (bundleUpdated D E bundles evt) = evt_bundle evt \<and>
      written (bundleUpdated D E bundles evt) = [] \<and>
      shifted (bundleUpdated D E bundles evt) = [] \<and>
      targets (bundleUpdated D E bundles evt) = [])"
proof -
  have e: "snd (buildsInBundle E' bundles' b' ms jfs) = []" if "listed ms = {}"
    for E' :: "'a env" and bundles' b' ms jfs
  proof -
    have "set (snd (buildsInBundle E' bundles' b' ms jfs)) = {}"
      using that by (simp add: buildsInBundle_targets)
    then show ?thesis by simp
  qed
  show ?thesis
    by (simp add: e bundleUpdated_def Let_def)
qed

theorem empty_modified_list_no_op_witness:
  "listed (Some []) = {}
   \<and> listed (filterFilesInBundle (demo_env [] [''/app/widget/build.json''] [''/app/widget/build.json''])
        (evt_bundle \<lparr>evt_bundle = demo_bundle, evt_files = Some []\<rparr>)
        (evt_files \<lparr>evt_bundle = demo_bundle, evt_files = Some []\<rparr>)) = {}
   \<and> snd (buildsInBundle (demo_env [] [''/app/widget/build.json''] [''/app/widget/build.json''])
        demo_registry demo_bundle (Some []) (Some [''/app/widget/build.json''])) = []
   \<and> outcome (bundleUpdated demo_describe
        (demo_env [] [''/app/widget/build.json''] [''/app/widget/build.json''])
        demo_registry \<lparr>evt_bundle = demo_bundle, evt_files = Some []\<rparr>) = NoPromise
   \<and> written (bundleUpdated demo_describe
        (demo_env [] [''/app/widget/build.json''] [''/app/widget/build.json''])
        demo_registry \<lparr>evt_bundle = demo_bundle, evt_files = Some []\<rparr>) = []
   \<and> shifted (bundleUpdated demo_describe
        (demo_env [] [''/app/widget/build.json''] [''/app/widget/build.json''])
        demo_registry \<lparr>evt_bundle = demo_bundle, evt_files = Some []\<rparr>) = []
   \<and> bundle_after (bundleUpdated demo_describe
        (demo_env [] [''/app/widget/build.json''] [''/app/widget/build.json''])
        demo_registry \<lparr>evt_bundle = demo_bundle, evt_files = Some []\<rparr>) = demo_bundle"
proof -
  have h1: "listed (Some []) = {}" by (simp add: listed_def)
  have h2: "listed (filterFilesInBundle
        (demo_env [] [''/app/widget/build.json''] [''/app/widget/build.json''])
        (evt_bundle \<lparr>evt_bundle = demo_bundle, evt_files = Some []\<rparr>)
        (evt_files \<lparr>evt_bundle = demo_bundle, evt_files = Some []\<rparr>)) = {}"
    by (simp add: listed_def demo_env_def)
  show ?thesis
    using h1 h2
      empty_modified_list_no_op [of "Some []"
        "demo_env [] [''/app/widget/build.json''] [''/app/widget/build.json'']"
        demo_registry demo_bundle "Some [''/app/widget/build.json'']"
        "\<lparr>evt_bundle = demo_bundle, evt_files = Some []\<rparr>" demo_describe]
    by simp
qed

text \<open>
  C9. Every target that \<open>_buildsInBundle\<close> returns is, after the call, a cache key of the
  bundle in the registry, holding the record that the shifter's check gave for it in this
  call. So when the list of targets is not empty the registry has a non-empty mapping for
  the bundle, and \<open>bundleUpdated\<close>, whose guard \<open>!meta\<close> reads that mapping, goes on to
  return a promise.
\<close>

theorem targets_are_registered:
  "(\<forall>t \<in> set (snd (buildsInBundle E bundles b modifiedFiles jsonFiles)).
      \<exists>r. lookup (fst (buildsInBundle E bundles b modifiedFiles jsonFiles)) (bundleName b) t = Some r \<and>
          (checkYUIModule E t = Some r \<or> checkBuildFile E t = Some r))
   \<and> (snd (buildsInBundle E bundles b modifiedFiles jsonFiles) \<noteq> [] \<longrightarrow>
        map_of (fst (buildsInBundle E bundles b modifiedFiles jsonFiles)) (bundleName b) \<noteq> None \<and>
        registered (fst (buildsInBundle E bundles b modifiedFiles jsonFiles)) (bundleName b) \<noteq> [])
   \<and> (snd (buildsInBundle E bundles (evt_bundle evt)
              (filterFilesInBundle E (evt_bundle evt) (evt_files evt))
              (getBundleFiles E (bundleName (evt_bundle evt)))) \<noteq> [] \<longrightarrow>
        outcome (bundleUpdated D E bundles evt) \<noteq> NoPromise)"
proof -
  have reg: "\<exists>r. lookup (fst (buildsInBundle E' bundles' b' ms jfs)) (bundleName b') t = Some r \<and>
          (checkYUIModule E' t = Some r \<or> checkBuildFile E' t = Some r)"
    if "t \<in> set (snd (buildsInBundle E' bundles' b' ms jfs))"
    for E' :: "'a env" and bundles' b' ms jfs t
    using that
    by (auto simp: buildsInBundle_targets buildsInBundle_lookup accepted_module_def
        valid_descriptor_def)
  have ne: "map_of (fst (buildsInBundle E' bundles' b' ms jfs)) (bundleName b') \<noteq> None \<and>
        registered (fst (buildsInBundle E' bundles' b' ms jfs)) (bundleName b') \<noteq> []"
    if "snd (buildsInBundle E' bundles' b' ms jfs) \<noteq> []"
    for E' :: "'a env" and bundles' b' ms jfs
  proof -
    from that obtain t where "t \<in> set (snd (buildsInBundle E' bundles' b' ms jfs))"
      by (cases "snd (buildsInBundle E' bundles' b' ms jfs)") auto
    from reg [OF this] obtain r where
      "lookup (fst (buildsInBundle E' bundles' b' ms jfs)) (bundleName b') t = Some r" by blast
    then show ?thesis
      by (auto simp: lookup_def registered_def split: option.splits)
  qed
  have out: "outcome (bundleUpdated D E bundles evt) \<noteq> NoPromise"
    if "snd (buildsInBundle E bundles (evt_bundle evt)
              (filterFilesInBundle E (evt_bundle evt) (evt_files evt))
              (getBundleFiles E (bundleName (evt_bundle evt)))) \<noteq> []"
    using that ne [OF that]
    by (auto simp: bundleUpdated_def Let_def split: sum.splits prod.splits option.splits)
  show ?thesis using reg ne out by blast
qed

text \<open>
  A first event on an empty registry: the module is registered, the meta module is written
  and shifted with it.
\<close>

theorem targets_are_registered_witness:
  "buildsInBundle (demo_env [''/app/a.js''] [] []) [] demo_bundle (Some [''/app/a.js'']) (Some [])
     = ([(''app'', [(''/app/a.js'', \<lparr>name = ''a.js'', buildfile = ''/app/a.js'',
                                      builds = [(''a.js'', \<lparr>config = None\<rparr>)]\<rparr>)])],
        [''/app/a.js''])
   \<and> lookup (fst (buildsInBundle (demo_env [''/app/a.js''] [] []) [] demo_bundle
         (Some [''/app/a.js'']) (Some []))) (bundleName demo_bundle) ''/app/a.js''
     = checkYUIModule (demo_env [''/app/a.js''] [] []) ''/app/a.js''
   \<and> outcome (bundleUpdated demo_describe (demo_env [''/app/a.js''] [] []) []
        \<lparr>evt_bundle = demo_bundle, evt_files = Some [''/app/a.js'']\<rparr>) = Fulfilled
   \<and> shifted (bundleUpdated demo_describe (demo_env [''/app/a.js''] [] []) []
        \<lparr>evt_bundle = demo_bundle, evt_files = Some [''/app/a.js'']\<rparr>) =
       [([''/app/a.js'', ''/app/build/loader-app.js''],
         \<lparr>buildDir = ''/app/build'',
          args = [''--no-global-config'', ''--no-coverage'', ''--no-lint'', ''--cssproc'',
                  ''/static/build''],
          cache = True\<rparr>)]"
proof -
  have r: "buildsInBundle (demo_env [''/app/a.js''] [] []) [] demo_bundle (Some [''/app/a.js'']) (Some [])
     = ([(''app'', [(''/app/a.js'', \<lparr>name = ''a.js'', buildfile = ''/app/a.js'',
                                      builds = [(''a.js'', \<lparr>config = None\<rparr>)]\<rparr>)])],
        [''/app/a.js''])"
    by code_simp
  have l: "lookup (fst (buildsInBundle (demo_env [''/app/a.js''] [] []) [] demo_bundle
         (Some [''/app/a.js'']) (Some []))) (bundleName demo_bundle) ''/app/a.js''
     = checkYUIModule (demo_env [''/app/a.js''] [] []) ''/app/a.js''"
    by code_simp
  have o: "outcome (bundleUpdated demo_describe (demo_env [''/app/a.js''] [] []) []
        \<lparr>evt_bundle = demo_bundle, evt_files = Some [''/app/a.js'']\<rparr>) = Fulfilled"
    by code_simp
  have s: "shifted (bundleUpdated demo_describe (demo_env [''/app/a.js''] [] []) []
        \<lparr>evt_bundle = demo_bundle, evt_files = Some [''/app/a.js'']\<rparr>) =
       [([''/app/a.js'', ''/app/build/loader-app.js''],
         \<lparr>buildDir = ''/app/build'',
          args = [''--no-global-config'', ''--no-coverage'', ''--no-lint'', ''--cssproc'',
                  ''/static/build''],
          cache = True\<rparr>)]"
    by code_simp
  show ?thesis
    using r l o s
      targets_are_registered [of "demo_env [''/app/a.js''] [] []" "[]" demo_bundle
        "Some [''/app/a.js'']" "Some []"
        "\<lparr>evt_bundle = demo_bundle, evt_files = Some [''/app/a.js'']\<rparr>" demo_describe]
    by simp
qed

end
